theory Spec2Isabelle
  imports Complex_Main "HOL-Library.Multiset" "HOL-Library.Product_Lexorder"
begin

section \<open>Data model\<close>

text \<open>
  The standings of the beach map are computed inside \<^verbatim>\<open>useMemo\<close> of
  \<^verbatim>\<open>src/components/public/BeachMap.tsx\<close> from three arrays delivered by the Firestore
  provider. The document types live in \<^verbatim>\<open>@/lib/firestore-services\<close>; the records below
  carry the fields the computation reads. JavaScript numbers are modelled as exact reals
  (no rounding, no NaN). A field that may be absent from a stored document and is compared
  with \<^verbatim>\<open>===\<close> is an option: \<open>None\<close> is JavaScript's \<^verbatim>\<open>undefined\<close>. The hour of
  an entry is an integer; an hour that is not a whole number equals no index of the hour
  loop, as an hour outside 1..7 does.
\<close>

record CompetitorDoc =
  c_id :: string
  c_fullName :: string
  c_equipe :: string
  c_boxNumber :: real
  c_boxCode :: string
  c_sector :: "string option"
  c_photo :: string

record HourlyEntryDoc =
  h_competitorId :: string
  h_hour :: "int option"
  h_fishCount :: real
  h_totalWeight :: real
  h_status :: string

record BigCatchDoc =
  b_competitorId :: string
  b_biggestCatch :: real
  b_status :: string

text \<open>The object built for every competitor (interface \<^verbatim>\<open>CompetitorChip\<close>).\<close>

record CompetitorChip =
  chip_id :: string
  name :: string
  equipe :: string
  boxNumber :: real
  boxCode :: string
  sector :: "string option"
  points :: real
  fishCount :: real
  totalWeight :: real
  biggestCatch :: real
  photo :: string
  coefficient :: real
  classementSecteur :: nat
  classementGeneral :: nat

record snapshot =
  firestoreCompetitors :: "CompetitorDoc list"
  firestoreHourlyEntries :: "HourlyEntryDoc list"
  firestoreBigCatches :: "BigCatchDoc list"

section \<open>Sorting with a comparator\<close>

text \<open>
  \<^verbatim>\<open>Array.prototype.sort(cmp)\<close> puts \<open>a\<close> before \<open>b\<close> when \<open>cmp a b < 0\<close> and keeps
  the order of elements that compare equal. The computation reaches the engine's sort only
  through this interface, so the stages below take the sort as a parameter \<open>srt\<close>;
  \<open>js_sort\<close> is the stable insertion sort that stands for the engine.
\<close>

type_synonym comparator = "CompetitorChip \<Rightarrow> CompetitorChip \<Rightarrow> real"
type_synonym sorter = "comparator \<Rightarrow> CompetitorChip list \<Rightarrow> CompetitorChip list"

fun insort_cmp :: "('a \<Rightarrow> 'a \<Rightarrow> real) \<Rightarrow> 'a \<Rightarrow> 'a list \<Rightarrow> 'a list" where
  "insort_cmp cmp x [] = [x]"
| "insort_cmp cmp x (y # ys) =
     (if cmp x y \<le> 0 then x # y # ys else y # insort_cmp cmp x ys)"

definition js_sort :: "('a \<Rightarrow> 'a \<Rightarrow> real) \<Rightarrow> 'a list \<Rightarrow> 'a list" where
  "js_sort cmp xs = foldr (insort_cmp cmp) xs []"

text \<open>
  What the language standard asks of \<^verbatim>\<open>sort\<close> for a comparator: the result is a
  permutation of the array, no element comes after one it must precede, and elements that
  compare equal keep their order.
\<close>

definition sortsStably :: "sorter \<Rightarrow> comparator \<Rightarrow> bool" where
  "sortsStably srt cmp \<longleftrightarrow>
     (\<forall>xs. mset (srt cmp xs) = mset xs
         \<and> sorted_wrt (\<lambda>a b. cmp a b \<le> 0) (srt cmp xs)
         \<and> (\<forall>x. filter (\<lambda>y. cmp x y = 0) (srt cmp xs) = filter (\<lambda>y. cmp x y = 0) xs))"

text \<open>
  Another stable sort, inserting from the left: every element goes behind the elements
  that do not come after it.
\<close>

fun insert_after :: "('a \<Rightarrow> 'a \<Rightarrow> real) \<Rightarrow> 'a \<Rightarrow> 'a list \<Rightarrow> 'a list" where
  "insert_after cmp x [] = [x]"
| "insert_after cmp x (y # ys) =
     (if cmp x y < 0 then x # y # ys else y # insert_after cmp x ys)"

definition left_sort :: "('a \<Rightarrow> 'a \<Rightarrow> real) \<Rightarrow> 'a list \<Rightarrow> 'a list" where
  "left_sort cmp xs = fold (insert_after cmp) xs []"

section \<open>Aggregation of one competitor\<close>

definition counted :: "string \<Rightarrow> bool" where
  "counted st \<longleftrightarrow>
     st \<in> set [''locked_judge'', ''locked_admin'', ''offline_judge'', ''offline_admin'']"

definition hourEntries :: "HourlyEntryDoc list \<Rightarrow> string \<Rightarrow> int \<Rightarrow> HourlyEntryDoc list" where
  "hourEntries hs cid hour =
     filter (\<lambda>entry. h_competitorId entry = cid \<and> h_hour entry = Some hour
                      \<and> counted (h_status entry)) hs"

definition addEntry :: "HourlyEntryDoc \<Rightarrow> real \<times> real \<Rightarrow> real \<times> real" where
  "addEntry entry acc = (fst acc + h_fishCount entry, snd acc + h_totalWeight entry)"

text \<open>The loop \<^verbatim>\<open>for (let hour = 1; hour <= 7; hour++)\<close> with its two accumulators.\<close>

definition sumHours :: "HourlyEntryDoc list \<Rightarrow> string \<Rightarrow> real \<times> real" where
  "sumHours hs cid =
     fold (\<lambda>hour acc. fold addEntry (hourEntries hs cid hour) acc) [1..7] (0, 0)"

definition grossePrise :: "BigCatchDoc list \<Rightarrow> string \<Rightarrow> real" where
  "grossePrise bs cid =
     (case find (\<lambda>entry. b_competitorId entry = cid \<and> counted (b_status entry)) bs of
        None \<Rightarrow> 0
      | Some grossePriseEntry \<Rightarrow> b_biggestCatch grossePriseEntry)"

definition calcCompetitor :: "snapshot \<Rightarrow> CompetitorDoc \<Rightarrow> CompetitorChip" where
  "calcCompetitor snap competitor =
     (let totals = sumHours (firestoreHourlyEntries snap) (c_id competitor);
          nbPrisesGlobal = fst totals;
          poidsTotal = snd totals
      in \<lparr> chip_id = c_id competitor,
           name = c_fullName competitor,
           equipe = c_equipe competitor,
           boxNumber = c_boxNumber competitor,
           boxCode = c_boxCode competitor,
           sector = c_sector competitor,
           points = nbPrisesGlobal * 50 + poidsTotal,
           fishCount = nbPrisesGlobal,
           totalWeight = poidsTotal,
           biggestCatch = grossePrise (firestoreBigCatches snap) (c_id competitor),
           photo = c_photo competitor,
           coefficient = 0,
           classementSecteur = 0,
           classementGeneral = 0 \<rparr>)"

section \<open>Sector ranking\<close>

definition setCoefficient :: "real \<Rightarrow> CompetitorChip \<Rightarrow> CompetitorChip" where
  "setCoefficient sectorTotal chip =
     (if sectorTotal > 0
      then chip\<lparr>coefficient := points chip * fishCount chip / sectorTotal\<rparr>
      else chip\<lparr>coefficient := 0\<rparr>)"

definition points_cmp :: comparator where
  "points_cmp a b = points b - points a"

definition assignSecteur :: "CompetitorChip list \<Rightarrow> CompetitorChip list" where
  "assignSecteur sectorSorted =
     map (\<lambda>(index, comp). comp\<lparr>classementSecteur := index + 1\<rparr>) (enumerate 0 sectorSorted)"

definition sectorCompetitors :: "snapshot \<Rightarrow> string \<Rightarrow> CompetitorDoc list" where
  "sectorCompetitors snap s =
     filter (\<lambda>comp. c_sector comp = Some s) (firestoreCompetitors snap)"

definition sectorCalculated :: "snapshot \<Rightarrow> string \<Rightarrow> CompetitorChip list" where
  "sectorCalculated snap s = map (calcCompetitor snap) (sectorCompetitors snap s)"

definition sectorTotalNbPrises :: "snapshot \<Rightarrow> string \<Rightarrow> real" where
  "sectorTotalNbPrises snap s =
     foldl (\<lambda>sum comp. sum + fishCount comp) 0 (sectorCalculated snap s)"

text \<open>The array \<^verbatim>\<open>sectorCalculated\<close> after the loop that writes the coefficients.\<close>

definition sectorCoefficients :: "snapshot \<Rightarrow> string \<Rightarrow> CompetitorChip list" where
  "sectorCoefficients snap s =
     map (setCoefficient (sectorTotalNbPrises snap s)) (sectorCalculated snap s)"

text \<open>The value stored in \<^verbatim>\<open>sectorCalculations[sector]\<close>.\<close>

definition sectorCalculations :: "sorter \<Rightarrow> snapshot \<Rightarrow> string \<Rightarrow> CompetitorChip list" where
  "sectorCalculations srt snap s = assignSecteur (srt points_cmp (sectorCoefficients snap s))"

section \<open>General ranking\<close>

definition sectors :: "string list" where
  "sectors = [''A'', ''B'', ''C'', ''D'', ''E'', ''F'']"

definition place_cmp :: comparator where
  "place_cmp a b =
     (if coefficient b \<noteq> coefficient a then coefficient b - coefficient a
      else biggestCatch b - biggestCatch a)"

text \<open>The competitors pushed into \<^verbatim>\<open>placeGroup\<close> for one place, before it is sorted.\<close>

definition collectPlace :: "(string \<Rightarrow> CompetitorChip list) \<Rightarrow> nat \<Rightarrow> CompetitorChip list" where
  "collectPlace calc place =
     List.map_filter (\<lambda>s. find (\<lambda>comp. classementSecteur comp = place) (calc s)) sectors"

definition placeGroup :: "sorter \<Rightarrow> (string \<Rightarrow> CompetitorChip list) \<Rightarrow> nat \<Rightarrow> CompetitorChip list" where
  "placeGroup srt calc place = srt place_cmp (collectPlace calc place)"

definition generalRanking :: "sorter \<Rightarrow> (string \<Rightarrow> CompetitorChip list) \<Rightarrow> CompetitorChip list" where
  "generalRanking srt calc = concat (map (placeGroup srt calc) [1..<21])"

definition nonZeroCompetitors :: "CompetitorChip list \<Rightarrow> CompetitorChip list" where
  "nonZeroCompetitors gr = filter (\<lambda>comp. coefficient comp > 0) gr"

definition zeroCoeffCompetitors :: "CompetitorChip list \<Rightarrow> CompetitorChip list" where
  "zeroCoeffCompetitors gr = filter (\<lambda>comp. coefficient comp = 0) gr"

text \<open>
  The two \<^verbatim>\<open>forEach\<close> loops that write \<^verbatim>\<open>classementGeneral\<close>; the result is the
  array \<^verbatim>\<open>[...nonZeroCompetitors, ...zeroCoeffCompetitors]\<close> after both loops.
\<close>

definition assignGeneral :: "CompetitorChip list \<Rightarrow> CompetitorChip list" where
  "assignGeneral gr =
     map (\<lambda>(index, comp). comp\<lparr>classementGeneral := index + 1\<rparr>)
         (enumerate 0 (nonZeroCompetitors gr))
     @ map (\<lambda>comp. comp\<lparr>classementGeneral := 120\<rparr>) (zeroCoeffCompetitors gr)"

text \<open>A property key: \<^verbatim>\<open>obj[undefined]\<close> is \<^verbatim>\<open>obj["undefined"]\<close>.\<close>

definition sectorKey :: "CompetitorChip \<Rightarrow> string" where
  "sectorKey chip = (case sector chip of None \<Rightarrow> ''undefined'' | Some s \<Rightarrow> s)"

definition pushChip ::
  "CompetitorChip \<Rightarrow> (string \<rightharpoonup> CompetitorChip list) \<Rightarrow> (string \<rightharpoonup> CompetitorChip list)" where
  "pushChip chip m =
     m(sectorKey chip \<mapsto> (case m (sectorKey chip) of None \<Rightarrow> [] | Some l \<Rightarrow> l) @ [chip])"

definition box_cmp :: comparator where
  "box_cmp a b = boxNumber a - boxNumber b"

text \<open>The list of all ranked competitors before it is grouped by sector.\<close>

definition rankedCompetitors :: "sorter \<Rightarrow> snapshot \<Rightarrow> CompetitorChip list" where
  "rankedCompetitors srt snap = assignGeneral (generalRanking srt (sectorCalculations srt snap))"

text \<open>The value of the memo: \<^verbatim>\<open>competitorsBySector\<close>, every sector sorted by box number.\<close>

definition competitorsBySector :: "sorter \<Rightarrow> snapshot \<Rightarrow> (string \<rightharpoonup> CompetitorChip list)" where
  "competitorsBySector srt snap =
     (\<lambda>k. map_option (srt box_cmp) (fold pushChip (rankedCompetitors srt snap) Map.empty k))"

section \<open>Reference notions of the specification\<close>

text \<open>
  The counted hourly entries of a competitor in the words of the specification: the
  competitor matches, the hour lies in 1..7 and the status is one of the four counted tags.
\<close>

definition countedEntries :: "HourlyEntryDoc list \<Rightarrow> string \<Rightarrow> HourlyEntryDoc list" where
  "countedEntries hs cid =
     filter (\<lambda>e. h_competitorId e = cid \<and> h_hour e \<in> Some ` {1..7}
                  \<and> h_status e \<in> {''locked_judge'', ''locked_admin'', ''offline_judge'', ''offline_admin''})
            hs"

text \<open>A standing without its sector rank, and without its general rank.\<close>

definition withoutSecteur :: "CompetitorChip \<Rightarrow> CompetitorChip" where
  "withoutSecteur chip = chip\<lparr>classementSecteur := 0\<rparr>"

definition withoutGeneral :: "CompetitorChip \<Rightarrow> CompetitorChip" where
  "withoutGeneral chip = chip\<lparr>classementGeneral := 0\<rparr>"

text \<open>
  The place-group of the specification: from every sector, in the order of the sectors, the
  competitors whose sector rank equals the place.
\<close>

definition atPlace :: "(string \<Rightarrow> CompetitorChip list) \<Rightarrow> nat \<Rightarrow> CompetitorChip list" where
  "atPlace calc place =
     concat (map (\<lambda>s. filter (\<lambda>c. classementSecteur c = place) (calc s)) sectors)"



text \<open>
  The standings of one sector as the component reads them
  (\<^verbatim>\<open>competitors[sector]?.slice(...)\<close>): nothing when the key is absent.
\<close>

definition sectorStandings :: "sorter \<Rightarrow> snapshot \<Rightarrow> string \<Rightarrow> CompetitorChip list" where
  "sectorStandings srt snap k = (case competitorsBySector srt snap k of None \<Rightarrow> [] | Some l \<Rightarrow> l)"

text \<open>The data model's bounds on an hourly entry: fish count and total weight are not negative.\<close>

definition nonNegativeEntries :: "snapshot \<Rightarrow> bool" where
  "nonNegativeEntries snap \<longleftrightarrow>
     (\<forall>e \<in> set (firestoreHourlyEntries snap). 0 \<le> h_fishCount e \<and> 0 \<le> h_totalWeight e)"

text \<open>The counted big-catch entries of a competitor, in the words of the specification.\<close>

definition countedBigCatches :: "BigCatchDoc list \<Rightarrow> string \<Rightarrow> BigCatchDoc list" where
  "countedBigCatches bs cid =
     filter (\<lambda>e. b_competitorId e = cid
                  \<and> b_status e \<in> {''locked_judge'', ''locked_admin'', ''offline_judge'', ''offline_admin''})
            bs"

section \<open>A scenario\<close>

text \<open>
  Sector A with three competitors whose counted catches are (2, 10), (0, 0) and (5, 3), one
  competitor in sector B (4 fish, weight 1), two competitor records without a usable sector, a draft entry,
  two entries without a usable hour and two big catches, one of them a draft.
\<close>

definition competitorDoc :: "string \<Rightarrow> string option \<Rightarrow> real \<Rightarrow> CompetitorDoc" where
  "competitorDoc i s b =
     \<lparr> c_id = i, c_fullName = i, c_equipe = ''OPEN'', c_boxNumber = b, c_boxCode = i,
       c_sector = s, c_photo = [] \<rparr>"

definition hourlyEntry :: "string \<Rightarrow> int option \<Rightarrow> real \<Rightarrow> real \<Rightarrow> string \<Rightarrow> HourlyEntryDoc" where
  "hourlyEntry i h f w st =
     \<lparr> h_competitorId = i, h_hour = h, h_fishCount = f, h_totalWeight = w, h_status = st \<rparr>"

definition bigCatch :: "string \<Rightarrow> real \<Rightarrow> string \<Rightarrow> BigCatchDoc" where
  "bigCatch i w st = \<lparr> b_competitorId = i, b_biggestCatch = w, b_status = st \<rparr>"

text \<open>A standing written out, with points = fish count * 50 + total weight.\<close>

definition standing ::
  "string \<Rightarrow> string \<Rightarrow> real \<Rightarrow> real \<Rightarrow> real \<Rightarrow> real \<Rightarrow> real \<Rightarrow> nat \<Rightarrow> nat \<Rightarrow> CompetitorChip" where
  "standing i s b f w g k rs rg =
     \<lparr> chip_id = i, name = i, equipe = ''OPEN'', boxNumber = b, boxCode = i, sector = Some s,
       points = f * 50 + w, fishCount = f, totalWeight = w, biggestCatch = g, photo = [],
       coefficient = k, classementSecteur = rs, classementGeneral = rg \<rparr>"

definition scenario :: snapshot where
  "scenario =
     \<lparr> firestoreCompetitors =
         [competitorDoc ''a1'' (Some ''A'') 3, competitorDoc ''a2'' (Some ''A'') 2,
          competitorDoc ''x1'' None 1, competitorDoc ''a3'' (Some ''A'') 1,
          competitorDoc ''b1'' (Some ''B'') 1, competitorDoc ''z1'' (Some ''Z'') 1],
       firestoreHourlyEntries =
         [hourlyEntry ''a1'' (Some 1) 2 10 ''locked_judge'',
          hourlyEntry ''a3'' (Some 2) 4 2 ''offline_admin'',
          hourlyEntry ''a2'' (Some 2) 5 3 ''draft'',
          hourlyEntry ''a3'' (Some 7) 1 1 ''locked_admin'',
          hourlyEntry ''a1'' (Some 8) 4 4 ''locked_judge'',
          hourlyEntry ''a1'' None 6 6 ''locked_judge'',
          hourlyEntry ''b1'' (Some 3) 4 1 ''offline_judge''],
       firestoreBigCatches =
         [bigCatch ''a3'' 4 ''draft'', bigCatch ''a1'' 3 ''locked_judge''] \<rparr>"

text \<open>
  A crowded sector: 21 competitors in sector A, boxes 1 to 21, of whom only the last has a
  counted entry (1 fish, weight 1).
\<close>

definition crowded :: snapshot where
  "crowded =
     \<lparr> firestoreCompetitors =
         [competitorDoc ''p01'' (Some ''A'') 1, competitorDoc ''p02'' (Some ''A'') 2,
          competitorDoc ''p03'' (Some ''A'') 3, competitorDoc ''p04'' (Some ''A'') 4,
          competitorDoc ''p05'' (Some ''A'') 5, competitorDoc ''p06'' (Some ''A'') 6,
          competitorDoc ''p07'' (Some ''A'') 7, competitorDoc ''p08'' (Some ''A'') 8,
          competitorDoc ''p09'' (Some ''A'') 9, competitorDoc ''p10'' (Some ''A'') 10,
          competitorDoc ''p11'' (Some ''A'') 11, competitorDoc ''p12'' (Some ''A'') 12,
          competitorDoc ''p13'' (Some ''A'') 13, competitorDoc ''p14'' (Some ''A'') 14,
          competitorDoc ''p15'' (Some ''A'') 15, competitorDoc ''p16'' (Some ''A'') 16,
          competitorDoc ''p17'' (Some ''A'') 17, competitorDoc ''p18'' (Some ''A'') 18,
          competitorDoc ''p19'' (Some ''A'') 19, competitorDoc ''p20'' (Some ''A'') 20,
          competitorDoc ''p21'' (Some ''A'') 21],
       firestoreHourlyEntries = [hourlyEntry ''p21'' (Some 1) 1 1 ''locked_judge''],
       firestoreBigCatches = [] \<rparr>"

text \<open>
  A sector with a negative weight: three competitors in sector A, of whom the last has one
  counted entry of 1 fish with total weight -100.
\<close>

definition negativeWeight :: snapshot where
  "negativeWeight =
     \<lparr> firestoreCompetitors =
         [competitorDoc ''n1'' (Some ''A'') 1, competitorDoc ''n2'' (Some ''A'') 2,
          competitorDoc ''n3'' (Some ''A'') 3],
       firestoreHourlyEntries =
         [hourlyEntry ''n1'' (Some 1) 2 10 ''locked_judge'',
          hourlyEntry ''n2'' (Some 1) 1 5 ''locked_judge'',
          hourlyEntry ''n3'' (Some 1) 1 (- 100) ''locked_judge''],
       firestoreBigCatches = [] \<rparr>"

lemmas scenario_defs =
  scenario_def competitorDoc_def hourlyEntry_def bigCatch_def

section \<open>Properties of the aggregation\<close>

lemma counted_iff:
  "counted st \<longleftrightarrow>
     st \<in> {''locked_judge'', ''locked_admin'', ''offline_judge'', ''offline_admin''}"
  by (simp add: counted_def)

lemma fold_addEntry:
  "fold addEntry es acc =
     (fst acc + sum_list (map h_fishCount es), snd acc + sum_list (map h_totalWeight es))"
  by (induction es arbitrary: acc) (simp_all add: addEntry_def)

lemma fold_hours:
  "fold (\<lambda>hour acc. fold addEntry (hourEntries hs cid hour) acc) hours acc =
     (fst acc + (\<Sum>hour\<leftarrow>hours. sum_list (map h_fishCount (hourEntries hs cid hour))),
      snd acc + (\<Sum>hour\<leftarrow>hours. sum_list (map h_totalWeight (hourEntries hs cid hour))))"
  by (induction hours arbitrary: acc) (simp_all add: fold_addEntry)

lemma sum_filter_hour_split:
  fixes f :: "HourlyEntryDoc \<Rightarrow> real"
  assumes "h \<notin> set hours"
  shows "sum_list (map f (filter (\<lambda>e. P e \<and> h_hour e \<in> Some ` set (h # hours) \<and> Q e) hs))
      = sum_list (map f (filter (\<lambda>e. P e \<and> h_hour e = Some h \<and> Q e) hs))
      + sum_list (map f (filter (\<lambda>e. P e \<and> h_hour e \<in> Some ` set hours \<and> Q e) hs))"
proof (induction hs)
  case Nil
  show ?case by simp
next
  case (Cons e hs)
  have "\<not> (h_hour e = Some h \<and> h_hour e \<in> Some ` set hours)"
    using assms by auto
  with Cons show ?case by auto
qed

lemma sum_hours_filter:
  fixes f :: "HourlyEntryDoc \<Rightarrow> real"
  assumes "distinct hours"
  shows "(\<Sum>hour\<leftarrow>hours. sum_list (map f (filter (\<lambda>e. P e \<and> h_hour e = Some hour \<and> Q e) hs)))
       = sum_list (map f (filter (\<lambda>e. P e \<and> h_hour e \<in> Some ` set hours \<and> Q e) hs))"
  using assms
proof (induction hours)
  case Nil
  show ?case by simp
next
  case (Cons h hours)
  then have fresh: "h \<notin> set hours"
    and IH: "(\<Sum>hour\<leftarrow>hours. sum_list (map f (filter (\<lambda>e. P e \<and> h_hour e = Some hour \<and> Q e) hs)))
       = sum_list (map f (filter (\<lambda>e. P e \<and> h_hour e \<in> Some ` set hours \<and> Q e) hs))"
    by simp_all
  show ?case
    unfolding sum_filter_hour_split [OF fresh] using IH by simp
qed

lemma sumHours_eq:
  "sumHours hs cid =
     (sum_list (map h_fishCount (countedEntries hs cid)),
      sum_list (map h_totalWeight (countedEntries hs cid)))"
proof -
  have d: "distinct [1..7::int]" by simp
  have "sumHours hs cid =
     ((\<Sum>hour\<leftarrow>[1..7]. sum_list (map h_fishCount (hourEntries hs cid hour))),
      (\<Sum>hour\<leftarrow>[1..7]. sum_list (map h_totalWeight (hourEntries hs cid hour))))"
    unfolding sumHours_def fold_hours by simp
  also have "\<dots> = (sum_list (map h_fishCount (countedEntries hs cid)),
                   sum_list (map h_totalWeight (countedEntries hs cid)))"
    unfolding hourEntries_def countedEntries_def counted_iff sum_hours_filter [OF d] by simp
  finally show ?thesis .
qed

lemma calc_fields [simp]:
  "chip_id (calcCompetitor snap c) = c_id c"
  "sector (calcCompetitor snap c) = c_sector c"
  "boxNumber (calcCompetitor snap c) = c_boxNumber c"
  "coefficient (calcCompetitor snap c) = 0"
  "classementSecteur (calcCompetitor snap c) = 0"
  "classementGeneral (calcCompetitor snap c) = 0"
  by (simp_all add: calcCompetitor_def Let_def)

lemma calc_totals:
  "fishCount (calcCompetitor snap c) =
     sum_list (map h_fishCount (countedEntries (firestoreHourlyEntries snap) (c_id c)))"
  "totalWeight (calcCompetitor snap c) =
     sum_list (map h_totalWeight (countedEntries (firestoreHourlyEntries snap) (c_id c)))"
  "points (calcCompetitor snap c) =
     fishCount (calcCompetitor snap c) * 50 + totalWeight (calcCompetitor snap c)"
  "biggestCatch (calcCompetitor snap c) = grossePrise (firestoreBigCatches snap) (c_id c)"
  by (simp_all add: calcCompetitor_def Let_def sumHours_eq)

text \<open>
  C1. For every competitor the aggregated fish count and total weight are the sums over the
  hourly entries of that competitor whose hour lies in 1..7 and whose status is one of
  \<^verbatim>\<open>locked_judge\<close>, \<^verbatim>\<open>locked_admin\<close>, \<^verbatim>\<open>offline_judge\<close>, \<^verbatim>\<open>offline_admin\<close>; every other
  entry contributes nothing. The points are fish count times 50 plus total weight.
\<close>

theorem aggregate_counted_sums:
  "fishCount (calcCompetitor snap c) =
     sum_list (map h_fishCount (countedEntries (firestoreHourlyEntries snap) (c_id c)))
   \<and> totalWeight (calcCompetitor snap c) =
     sum_list (map h_totalWeight (countedEntries (firestoreHourlyEntries snap) (c_id c)))
   \<and> points (calcCompetitor snap c) =
     fishCount (calcCompetitor snap c) * 50 + totalWeight (calcCompetitor snap c)"
  by (simp add: calc_totals)

text \<open>
  In the scenario competitor \<open>a1\<close> has one counted entry (2 fish, weight 10) beside entries
  at hour 8 and without an hour, and \<open>a2\<close> has only a draft entry with non-zero values.
\<close>

theorem aggregate_counted_sums_witness:
  "countedEntries (firestoreHourlyEntries scenario) ''a1''
     = [hourlyEntry ''a1'' (Some 1) 2 10 ''locked_judge'']
   \<and> fishCount (calcCompetitor scenario (competitorDoc ''a1'' (Some ''A'') 3)) = 2
   \<and> totalWeight (calcCompetitor scenario (competitorDoc ''a1'' (Some ''A'') 3)) = 10
   \<and> points (calcCompetitor scenario (competitorDoc ''a1'' (Some ''A'') 3)) = 110
   \<and> countedEntries (firestoreHourlyEntries scenario) ''a2'' = []
   \<and> fishCount (calcCompetitor scenario (competitorDoc ''a2'' (Some ''A'') 2)) = 0
   \<and> totalWeight (calcCompetitor scenario (competitorDoc ''a2'' (Some ''A'') 2)) = 0"
proof -
  have e1: "countedEntries (firestoreHourlyEntries scenario) ''a1''
     = [hourlyEntry ''a1'' (Some 1) 2 10 ''locked_judge'']"
    by (simp add: countedEntries_def scenario_defs image_iff)
  have e2: "countedEntries (firestoreHourlyEntries scenario) ''a2'' = []"
    by (simp add: countedEntries_def scenario_defs image_iff)
  have i1: "c_id (competitorDoc ''a1'' (Some ''A'') 3) = ''a1''"
    and i2: "c_id (competitorDoc ''a2'' (Some ''A'') 2) = ''a2''"
    by (simp_all add: competitorDoc_def)
  show ?thesis
    using aggregate_counted_sums [of scenario "competitorDoc ''a1'' (Some ''A'') 3"]
      aggregate_counted_sums [of scenario "competitorDoc ''a2'' (Some ''A'') 2"]
    unfolding i1 i2 e1 e2 by (simp add: hourlyEntry_def)
qed

subsection \<open>Biggest catch\<close>

lemma find_filter: "find P xs = (case filter P xs of [] \<Rightarrow> None | x # _ \<Rightarrow> Some x)"
  by (induction xs) auto

lemma grossePrise_eq:
  "grossePrise bs cid = (case countedBigCatches bs cid of [] \<Rightarrow> 0 | e # _ \<Rightarrow> b_biggestCatch e)"
  by (simp add: grossePrise_def find_filter countedBigCatches_def counted_iff split: list.splits)

text \<open>
  C7. When a competitor has at most one counted big-catch entry, the biggest catch of its
  standing is the value of that entry, and it is 0 when there is none.
\<close>

theorem biggestCatch_single_counted:
  assumes "length (countedBigCatches (firestoreBigCatches snap) (c_id c)) \<le> 1"
  shows "(countedBigCatches (firestoreBigCatches snap) (c_id c) = []
            \<longrightarrow> biggestCatch (calcCompetitor snap c) = 0)
       \<and> (\<forall>e. countedBigCatches (firestoreBigCatches snap) (c_id c) = [e]
            \<longrightarrow> biggestCatch (calcCompetitor snap c) = b_biggestCatch e)
       \<and> (\<exists>e. countedBigCatches (firestoreBigCatches snap) (c_id c) = []
              \<or> countedBigCatches (firestoreBigCatches snap) (c_id c) = [e])"
proof -
  have "\<exists>e. countedBigCatches (firestoreBigCatches snap) (c_id c) = []
              \<or> countedBigCatches (firestoreBigCatches snap) (c_id c) = [e]"
    using assms by (cases "countedBigCatches (firestoreBigCatches snap) (c_id c)") auto
  then show ?thesis by (auto simp: calc_totals grossePrise_eq)
qed

theorem biggestCatch_single_counted_witness:
  "length (countedBigCatches (firestoreBigCatches scenario) ''a1'') \<le> 1
   \<and> countedBigCatches (firestoreBigCatches scenario) ''a1'' = [bigCatch ''a1'' 3 ''locked_judge'']
   \<and> biggestCatch (calcCompetitor scenario (competitorDoc ''a1'' (Some ''A'') 3)) = 3
   \<and> length (countedBigCatches (firestoreBigCatches scenario) ''a3'') \<le> 1
   \<and> countedBigCatches (firestoreBigCatches scenario) ''a3'' = []
   \<and> biggestCatch (calcCompetitor scenario (competitorDoc ''a3'' (Some ''A'') 1)) = 0"
proof -
  have e1: "countedBigCatches (firestoreBigCatches scenario) ''a1'' = [bigCatch ''a1'' 3 ''locked_judge'']"
    and e3: "countedBigCatches (firestoreBigCatches scenario) ''a3'' = []"
    by (simp_all add: countedBigCatches_def scenario_defs)
  have i1: "c_id (competitorDoc ''a1'' (Some ''A'') 3) = ''a1''"
    and i3: "c_id (competitorDoc ''a3'' (Some ''A'') 1) = ''a3''"
    by (simp_all add: competitorDoc_def)
  have l1: "length (countedBigCatches (firestoreBigCatches scenario) (c_id (competitorDoc ''a1'' (Some ''A'') 3))) \<le> 1"
    and l3: "length (countedBigCatches (firestoreBigCatches scenario) (c_id (competitorDoc ''a3'' (Some ''A'') 1))) \<le> 1"
    unfolding i1 i3 e1 e3 by simp_all
  show ?thesis
    using biggestCatch_single_counted [OF l1] biggestCatch_single_counted [OF l3]
    unfolding i1 i3 e1 e3 by (simp add: bigCatch_def)
qed

text \<open>The equations that evaluate the stages on a concrete snapshot.\<close>

lemmas stage_defs =
  calcCompetitor_def sumHours_eq countedEntries_def image_iff counted_def grossePrise_def
  sectorCompetitors_def sectorCalculated_def sectorTotalNbPrises_def setCoefficient_def
  sectorCoefficients_def sectorCalculations_def assignSecteur_def js_sort_def points_cmp_def
  enumerate_eq_zip Let_def

section \<open>Properties of the sort\<close>

lemma insort_cmp_key:
  assumes "\<And>a b. (cmp a b \<le> 0) = (f a \<le> f b)"
  shows "insort_cmp cmp x xs = insort_key f x xs"
  by (induction xs) (simp_all add: assms)

lemma js_sort_key:
  assumes "\<And>a b. (cmp a b \<le> 0) = (f a \<le> f b)"
  shows "js_sort cmp xs = sort_key f xs"
proof -
  have "insort_cmp cmp = insort_key f"
    by (intro ext) (rule insort_cmp_key [OF assms])
  then show ?thesis by (simp add: js_sort_def sort_key_def)
qed

lemma points_cmp_key: "(points_cmp a b \<le> 0) = (- points a \<le> - points b)"
  by (simp add: points_cmp_def)

lemma box_cmp_key: "(box_cmp a b \<le> 0) = (boxNumber a \<le> boxNumber b)"
  by (simp add: box_cmp_def)

lemma place_cmp_key:
  "(place_cmp a b \<le> 0) = ((- coefficient a, - biggestCatch a) \<le> (- coefficient b, - biggestCatch b))"
  by (auto simp: place_cmp_def)

lemma mset_insort_cmp: "mset (insort_cmp cmp x xs) = add_mset x (mset xs)"
  by (induction xs) simp_all

lemma mset_js_sort: "mset (js_sort cmp xs) = mset xs"
  by (induction xs) (simp_all add: js_sort_def mset_insort_cmp)

lemma set_js_sort: "set (js_sort cmp xs) = set xs"
  using mset_js_sort [of cmp xs] by (metis set_mset_mset)

lemma length_js_sort: "length (js_sort cmp xs) = length xs"
  using mset_js_sort [of cmp xs] by (metis size_mset)

section \<open>Properties of the sector ranking\<close>

lemma length_assignSecteur [simp]: "length (assignSecteur xs) = length xs"
  by (simp add: assignSecteur_def)

lemma nth_assignSecteur:
  "i < length xs \<Longrightarrow> assignSecteur xs ! i = (xs ! i)\<lparr>classementSecteur := Suc i\<rparr>"
  by (simp add: assignSecteur_def nth_enumerate_eq)

lemma map_classementSecteur_assign:
  "map classementSecteur (assignSecteur xs) = [1..<Suc (length xs)]"
  by (rule nth_equalityI) (simp_all add: nth_assignSecteur del: upt_Suc)

lemma map_withoutSecteur_assign:
  "map withoutSecteur (assignSecteur xs) = map withoutSecteur xs"
  by (rule nth_equalityI) (simp_all add: nth_assignSecteur withoutSecteur_def)

lemma map_fields_assign:
  "map points (assignSecteur xs) = map points xs"
  "map fishCount (assignSecteur xs) = map fishCount xs"
  "map coefficient (assignSecteur xs) = map coefficient xs"
  "map sector (assignSecteur xs) = map sector xs"
  by (rule nth_equalityI; simp add: nth_assignSecteur)+

lemma in_assignSecteurD:
  assumes "c \<in> set (assignSecteur xs)"
  obtains i where "i < length xs" "c = (xs ! i)\<lparr>classementSecteur := Suc i\<rparr>"
proof -
  from assms obtain i where "i < length (assignSecteur xs)" "assignSecteur xs ! i = c"
    by (auto simp: in_set_conv_nth)
  then show thesis using that [of i] by (simp add: nth_assignSecteur)
qed

lemma foldl_add_sum:
  fixes a :: real
  shows "foldl (\<lambda>sum comp. sum + f comp) a xs = a + sum_list (map f xs)"
  by (induction xs arbitrary: a) simp_all

lemma sectorTotalNbPrises_sum:
  "sectorTotalNbPrises snap s = sum_list (map fishCount (sectorCalculated snap s))"
  by (simp add: sectorTotalNbPrises_def foldl_add_sum)

lemma setCoefficient_fields [simp]:
  "points (setCoefficient t c) = points c"
  "fishCount (setCoefficient t c) = fishCount c"
  "totalWeight (setCoefficient t c) = totalWeight c"
  "biggestCatch (setCoefficient t c) = biggestCatch c"
  "sector (setCoefficient t c) = sector c"
  "chip_id (setCoefficient t c) = chip_id c"
  "boxNumber (setCoefficient t c) = boxNumber c"
  "classementSecteur (setCoefficient t c) = classementSecteur c"
  "classementGeneral (setCoefficient t c) = classementGeneral c"
  "coefficient (setCoefficient t c) = (if t > 0 then points c * fishCount c / t else 0)"
  by (simp_all add: setCoefficient_def)

lemma sum_list_map_mset:
  fixes f :: "'a \<Rightarrow> real"
  shows "mset xs = mset ys \<Longrightarrow> sum_list (map f xs) = sum_list (map f ys)"
  by (metis mset_map sum_mset_sum_list)

lemma length_sectorCoefficients [simp]:
  "length (sectorCoefficients snap s) = length (sectorCompetitors snap s)"
  by (simp add: sectorCoefficients_def sectorCalculated_def)

lemma length_sectorCalculations [simp]:
  "length (sectorCalculations js_sort snap s) = length (sectorCompetitors snap s)"
  by (simp add: sectorCalculations_def length_js_sort)

lemma sectorCoefficients_unranked:
  "u \<in> set (sectorCoefficients snap s) \<Longrightarrow> classementSecteur u = 0 \<and> classementGeneral u = 0 \<and> sector u = Some s"
  by (auto simp: sectorCoefficients_def sectorCalculated_def sectorCompetitors_def)

lemma withoutSecteur_id: "classementSecteur u = 0 \<Longrightarrow> withoutSecteur u = u"
  by (simp add: withoutSecteur_def)

lemma withoutSecteur_sorted:
  "map withoutSecteur (sectorCalculations js_sort snap s) = js_sort points_cmp (sectorCoefficients snap s)"
proof -
  have "map withoutSecteur (js_sort points_cmp (sectorCoefficients snap s))
        = map (\<lambda>u. u) (js_sort points_cmp (sectorCoefficients snap s))"
    by (rule map_cong [OF refl]) (simp add: set_js_sort sectorCoefficients_unranked withoutSecteur_id)
  then show ?thesis
    by (simp add: sectorCalculations_def map_withoutSecteur_assign)
qed

lemma sum_fishCount_sector:
  "sum_list (map fishCount (sectorCalculations js_sort snap s)) = sectorTotalNbPrises snap s"
proof -
  have "sum_list (map fishCount (sectorCalculations js_sort snap s))
      = sum_list (map fishCount (js_sort points_cmp (sectorCoefficients snap s)))"
    by (simp add: sectorCalculations_def map_fields_assign)
  also have "\<dots> = sum_list (map fishCount (sectorCoefficients snap s))"
    by (rule sum_list_map_mset) (rule mset_js_sort)
  also have "\<dots> = sum_list (map fishCount (sectorCalculated snap s))"
    by (simp add: sectorCoefficients_def o_def)
  finally show ?thesis by (simp add: sectorTotalNbPrises_sum)
qed

lemma in_sectorCalculationsD:
  assumes "c \<in> set (sectorCalculations js_sort snap s)"
  obtains i u where "i < length (sectorCompetitors snap s)"
    "u \<in> set (sectorCoefficients snap s)" "c = u\<lparr>classementSecteur := Suc i\<rparr>"
    "sectorCalculations js_sort snap s ! i = c"
proof -
  let ?xs = "js_sort points_cmp (sectorCoefficients snap s)"
  from assms obtain i where i: "i < length ?xs" "c = (?xs ! i)\<lparr>classementSecteur := Suc i\<rparr>"
    unfolding sectorCalculations_def by (rule in_assignSecteurD)
  have "?xs ! i \<in> set (sectorCoefficients snap s)"
    using i(1) by (metis nth_mem set_js_sort)
  moreover have "sectorCalculations js_sort snap s ! i = c"
    using i by (simp add: sectorCalculations_def nth_assignSecteur)
  ultimately show thesis using that [of i "?xs ! i"] i by (simp add: length_js_sort)
qed

lemma js_sort_points: "js_sort points_cmp xs = sort_key (\<lambda>c. - points c) xs"
  by (rule js_sort_key) (rule points_cmp_key)

subsection \<open>The scenario, sector by sector\<close>

lemma scenario_sector_A:
  "sectorCalculations js_sort scenario ''A'' =
     [standing ''a3'' ''A'' 1 5 3 0 (1265 / 7) 1 0,
      standing ''a1'' ''A'' 3 2 10 3 (220 / 7) 2 0,
      standing ''a2'' ''A'' 2 0 0 0 0 3 0]"
  by (simp add: scenario_defs stage_defs standing_def)

lemma scenario_sector_B:
  "sectorCalculations js_sort scenario ''B'' = [standing ''b1'' ''B'' 1 4 1 0 201 1 0]"
  by (simp add: scenario_defs stage_defs standing_def)

lemma scenario_sector_empty:
  "sectorCalculations js_sort scenario ''C'' = []"
  "sectorCalculations js_sort scenario ''D'' = []"
  "sectorCalculations js_sort scenario ''E'' = []"
  "sectorCalculations js_sort scenario ''F'' = []"
  by (simp_all add: scenario_defs stage_defs)

subsection \<open>The crowded sector\<close>

lemma crowded_competitors:
  "firestoreCompetitors crowded =
     [competitorDoc ''p01'' (Some ''A'') 1, competitorDoc ''p02'' (Some ''A'') 2,
      competitorDoc ''p03'' (Some ''A'') 3, competitorDoc ''p04'' (Some ''A'') 4,
      competitorDoc ''p05'' (Some ''A'') 5, competitorDoc ''p06'' (Some ''A'') 6,
      competitorDoc ''p07'' (Some ''A'') 7, competitorDoc ''p08'' (Some ''A'') 8,
      competitorDoc ''p09'' (Some ''A'') 9, competitorDoc ''p10'' (Some ''A'') 10,
      competitorDoc ''p11'' (Some ''A'') 11, competitorDoc ''p12'' (Some ''A'') 12,
      competitorDoc ''p13'' (Some ''A'') 13, competitorDoc ''p14'' (Some ''A'') 14,
      competitorDoc ''p15'' (Some ''A'') 15, competitorDoc ''p16'' (Some ''A'') 16,
      competitorDoc ''p17'' (Some ''A'') 17, competitorDoc ''p18'' (Some ''A'') 18,
      competitorDoc ''p19'' (Some ''A'') 19, competitorDoc ''p20'' (Some ''A'') 20,
      competitorDoc ''p21'' (Some ''A'') 21]"
  by (simp add: crowded_def)

lemma competitorDoc_sel [simp]:
  "c_id (competitorDoc i s b) = i" "c_sector (competitorDoc i s b) = s"
  "c_boxNumber (competitorDoc i s b) = b"
  by (simp_all add: competitorDoc_def)

lemma crowded_calc:
  "i \<noteq> ''p21'' \<Longrightarrow> calcCompetitor crowded (competitorDoc i (Some ''A'') b) = standing i ''A'' b 0 0 0 0 0 0"
  "calcCompetitor crowded (competitorDoc ''p21'' (Some ''A'') b) = standing ''p21'' ''A'' b 1 1 0 0 0 0"
  by (simp_all add: crowded_def competitorDoc_def hourlyEntry_def standing_def calcCompetitor_def
        sumHours_eq countedEntries_def image_iff grossePrise_def)

lemma crowded_calculated:
  "sectorCalculated crowded ''A'' =
     [standing ''p01'' ''A'' 1 0 0 0 0 0 0, standing ''p02'' ''A'' 2 0 0 0 0 0 0,
      standing ''p03'' ''A'' 3 0 0 0 0 0 0, standing ''p04'' ''A'' 4 0 0 0 0 0 0,
      standing ''p05'' ''A'' 5 0 0 0 0 0 0, standing ''p06'' ''A'' 6 0 0 0 0 0 0,
      standing ''p07'' ''A'' 7 0 0 0 0 0 0, standing ''p08'' ''A'' 8 0 0 0 0 0 0,
      standing ''p09'' ''A'' 9 0 0 0 0 0 0, standing ''p10'' ''A'' 10 0 0 0 0 0 0,
      standing ''p11'' ''A'' 11 0 0 0 0 0 0, standing ''p12'' ''A'' 12 0 0 0 0 0 0,
      standing ''p13'' ''A'' 13 0 0 0 0 0 0, standing ''p14'' ''A'' 14 0 0 0 0 0 0,
      standing ''p15'' ''A'' 15 0 0 0 0 0 0, standing ''p16'' ''A'' 16 0 0 0 0 0 0,
      standing ''p17'' ''A'' 17 0 0 0 0 0 0, standing ''p18'' ''A'' 18 0 0 0 0 0 0,
      standing ''p19'' ''A'' 19 0 0 0 0 0 0, standing ''p20'' ''A'' 20 0 0 0 0 0 0,
      standing ''p21'' ''A'' 21 1 1 0 0 0 0]"
  unfolding sectorCalculated_def sectorCompetitors_def crowded_competitors
  by (simp add: crowded_calc)

lemma crowded_sector_A:
  "sectorCalculations js_sort crowded ''A'' =
     [standing ''p21'' ''A'' 21 1 1 0 51 1 0,
      standing ''p01'' ''A'' 1 0 0 0 0 2 0, standing ''p02'' ''A'' 2 0 0 0 0 3 0,
      standing ''p03'' ''A'' 3 0 0 0 0 4 0, standing ''p04'' ''A'' 4 0 0 0 0 5 0,
      standing ''p05'' ''A'' 5 0 0 0 0 6 0, standing ''p06'' ''A'' 6 0 0 0 0 7 0,
      standing ''p07'' ''A'' 7 0 0 0 0 8 0, standing ''p08'' ''A'' 8 0 0 0 0 9 0,
      standing ''p09'' ''A'' 9 0 0 0 0 10 0, standing ''p10'' ''A'' 10 0 0 0 0 11 0,
      standing ''p11'' ''A'' 11 0 0 0 0 12 0, standing ''p12'' ''A'' 12 0 0 0 0 13 0,
      standing ''p13'' ''A'' 13 0 0 0 0 14 0, standing ''p14'' ''A'' 14 0 0 0 0 15 0,
      standing ''p15'' ''A'' 15 0 0 0 0 16 0, standing ''p16'' ''A'' 16 0 0 0 0 17 0,
      standing ''p17'' ''A'' 17 0 0 0 0 18 0, standing ''p18'' ''A'' 18 0 0 0 0 19 0,
      standing ''p19'' ''A'' 19 0 0 0 0 20 0, standing ''p20'' ''A'' 20 0 0 0 0 21 0]"
  unfolding sectorCalculations_def sectorCoefficients_def sectorTotalNbPrises_def crowded_calculated
  by (simp add: standing_def setCoefficient_def js_sort_def points_cmp_def assignSecteur_def
        enumerate_eq_zip)

lemma crowded_sector_empty:
  "s \<noteq> ''A'' \<Longrightarrow> sectorCalculations js_sort crowded s = []"
  by (simp add: sectorCalculations_def sectorCoefficients_def sectorCalculated_def
        sectorCompetitors_def crowded_competitors js_sort_def assignSecteur_def)

text \<open>
  C2. In every sector the coefficient of a competitor is points times fish count divided by
  the sector's total fish count when that total is positive, and 0 otherwise; the total used
  as denominator is the sum of the fish counts of the sector's standings. A competitor
  without fish has coefficient 0.
\<close>

theorem coefficient_formula:
  assumes "c \<in> set (sectorCalculations js_sort snap s)"
  shows "coefficient c =
           (if sum_list (map fishCount (sectorCalculations js_sort snap s)) > 0
            then points c * fishCount c / sum_list (map fishCount (sectorCalculations js_sort snap s))
            else 0)
       \<and> sectorTotalNbPrises snap s = sum_list (map fishCount (sectorCalculations js_sort snap s))
       \<and> sectorTotalNbPrises snap s
            = (\<Sum>d\<leftarrow>sectorCompetitors snap s. fishCount (calcCompetitor snap d))
       \<and> (fishCount c = 0 \<longrightarrow> coefficient c = 0)"
proof -
  from assms obtain i u where u: "u \<in> set (sectorCoefficients snap s)" "c = u\<lparr>classementSecteur := Suc i\<rparr>"
    by (rule in_sectorCalculationsD)
  from u(1) obtain c0 where "u = setCoefficient (sectorTotalNbPrises snap s) c0"
    by (auto simp: sectorCoefficients_def)
  with u(2) have "coefficient c = (if sectorTotalNbPrises snap s > 0 then points c * fishCount c / sectorTotalNbPrises snap s else 0)"
    by simp
  moreover have "sectorTotalNbPrises snap s
      = (\<Sum>d\<leftarrow>sectorCompetitors snap s. fishCount (calcCompetitor snap d))"
    by (simp add: sectorTotalNbPrises_sum sectorCalculated_def o_def)
  ultimately show ?thesis by (simp add: sum_fishCount_sector)
qed

theorem coefficient_formula_witness:
  "standing ''a3'' ''A'' 1 5 3 0 (1265 / 7) 1 0 \<in> set (sectorCalculations js_sort scenario ''A'')
   \<and> sum_list (map fishCount (sectorCalculations js_sort scenario ''A'')) = 7
   \<and> sectorTotalNbPrises scenario ''A'' = 7
   \<and> points (standing ''a3'' ''A'' 1 5 3 0 (1265 / 7) 1 0) = 253
   \<and> coefficient (standing ''a3'' ''A'' 1 5 3 0 (1265 / 7) 1 0) = 253 * 5 / 7
   \<and> standing ''a2'' ''A'' 2 0 0 0 0 3 0 \<in> set (sectorCalculations js_sort scenario ''A'')
   \<and> coefficient (standing ''a2'' ''A'' 2 0 0 0 0 3 0) = 0"
proof -
  have m3: "standing ''a3'' ''A'' 1 5 3 0 (1265 / 7) 1 0 \<in> set (sectorCalculations js_sort scenario ''A'')"
    and m2: "standing ''a2'' ''A'' 2 0 0 0 0 3 0 \<in> set (sectorCalculations js_sort scenario ''A'')"
    by (simp_all add: scenario_sector_A)
  have t: "sum_list (map fishCount (sectorCalculations js_sort scenario ''A'')) = 7"
    by (simp add: scenario_sector_A standing_def)
  show ?thesis
    using coefficient_formula [OF m3] coefficient_formula [OF m2] m3 m2
    unfolding t by (simp add: standing_def)
qed

lemma sector_ranks:
  "map classementSecteur (sectorCalculations js_sort snap s)
     = [1..<Suc (length (sectorCompetitors snap s))]"
  by (simp add: sectorCalculations_def map_classementSecteur_assign length_js_sort del: upt_Suc)

lemma sector_sorted:
  "sorted_wrt (\<lambda>a b. points a \<ge> points b) (sectorCalculations js_sort snap s)"
proof -
  let ?U = "sectorCoefficients snap s"
  have "sorted (map (\<lambda>c. - points c) (js_sort points_cmp ?U))"
    unfolding js_sort_points by (rule sorted_sort_key)
  then have "sorted_wrt (\<lambda>a b. b \<le> a) (map points (js_sort points_cmp ?U))"
    by (simp add: sorted_map sorted_wrt_map)
  then have "sorted_wrt (\<lambda>a b. b \<le> a) (map points (sectorCalculations js_sort snap s))"
    by (simp add: sectorCalculations_def map_fields_assign)
  then show ?thesis
    by (simp add: sorted_wrt_map)
qed

lemma sector_stable:
  "filter (\<lambda>c. points c = p) (map withoutSecteur (sectorCalculations js_sort snap s))
     = filter (\<lambda>c. points c = p) (sectorCoefficients snap s)"
proof -
  have "filter (\<lambda>c. - points c = - p) (sort_key (\<lambda>c. - points c) (sectorCoefficients snap s))
      = filter (\<lambda>c. - points c = - p) (sectorCoefficients snap s)"
    by (rule sort_key_stable)
  then show ?thesis by (simp add: withoutSecteur_sorted js_sort_points)
qed

text \<open>
  C3. The sector rank is the 1-based position after sorting the sector's competitors by
  points, highest first, keeping the encounter order of competitors with equal points; the
  ranks of a sector of size n are 1, 2, ..., n.
\<close>

theorem sector_rank_positions:
  "length (sectorCalculations js_sort snap s) = length (sectorCompetitors snap s)
   \<and> map classementSecteur (sectorCalculations js_sort snap s)
       = [1..<Suc (length (sectorCompetitors snap s))]
   \<and> sorted_wrt (\<lambda>a b. points a \<ge> points b) (sectorCalculations js_sort snap s)
   \<and> (\<forall>p. filter (\<lambda>c. points c = p) (map withoutSecteur (sectorCalculations js_sort snap s))
          = filter (\<lambda>c. points c = p) (sectorCoefficients snap s))
   \<and> mset (map withoutSecteur (sectorCalculations js_sort snap s)) = mset (sectorCoefficients snap s)"
  using sector_ranks sector_sorted sector_stable
  by (simp add: withoutSecteur_sorted mset_js_sort)

theorem sector_rank_positions_witness:
  "length (sectorCompetitors scenario ''A'') = 3
   \<and> map classementSecteur (sectorCalculations js_sort scenario ''A'') = [1, 2, 3]
   \<and> map chip_id (sectorCalculations js_sort scenario ''A'') = [''a3'', ''a1'', ''a2'']
   \<and> map points (sectorCalculations js_sort scenario ''A'') = [253, 110, 0]
   \<and> map chip_id (sectorCoefficients scenario ''A'') = [''a1'', ''a2'', ''a3'']
   \<and> length (sectorCompetitors crowded ''A'') = 21
   \<and> map classementSecteur (sectorCalculations js_sort crowded ''A'') = [1..<22]
   \<and> map chip_id (filter (\<lambda>c. points c = 0) (sectorCoefficients crowded ''A''))
       = [''p01'', ''p02'', ''p03'', ''p04'', ''p05'', ''p06'', ''p07'', ''p08'', ''p09'', ''p10'',
          ''p11'', ''p12'', ''p13'', ''p14'', ''p15'', ''p16'', ''p17'', ''p18'', ''p19'', ''p20'']
   \<and> map chip_id (sectorCalculations js_sort crowded ''A'')
       = [''p21'', ''p01'', ''p02'', ''p03'', ''p04'', ''p05'', ''p06'', ''p07'', ''p08'', ''p09'',
          ''p10'', ''p11'', ''p12'', ''p13'', ''p14'', ''p15'', ''p16'', ''p17'', ''p18'', ''p19'',
          ''p20'']"
proof -
  have n: "length (sectorCompetitors scenario ''A'') = 3"
    by (simp add: scenario_defs sectorCompetitors_def)
  have m: "length (sectorCompetitors crowded ''A'') = 21"
    by (simp add: sectorCompetitors_def crowded_competitors)
  have u: "map chip_id (sectorCoefficients scenario ''A'') = [''a1'', ''a2'', ''a3'']"
    by (simp add: scenario_defs stage_defs)
  have v: "map chip_id (filter (\<lambda>c. points c = 0) (sectorCoefficients crowded ''A''))
       = [''p01'', ''p02'', ''p03'', ''p04'', ''p05'', ''p06'', ''p07'', ''p08'', ''p09'', ''p10'',
          ''p11'', ''p12'', ''p13'', ''p14'', ''p15'', ''p16'', ''p17'', ''p18'', ''p19'', ''p20'']"
    unfolding sectorCoefficients_def crowded_calculated by (simp add: standing_def)
  have w: "map chip_id (sectorCalculations js_sort crowded ''A'')
       = [''p21'', ''p01'', ''p02'', ''p03'', ''p04'', ''p05'', ''p06'', ''p07'', ''p08'', ''p09'',
          ''p10'', ''p11'', ''p12'', ''p13'', ''p14'', ''p15'', ''p16'', ''p17'', ''p18'', ''p19'',
          ''p20'']"
    unfolding crowded_sector_A by (simp add: standing_def)
  show ?thesis
    using sector_rank_positions [of scenario "''A''"] sector_rank_positions [of crowded "''A''"]
      u v w
    unfolding n m
    by (simp add: scenario_sector_A standing_def)
qed

section \<open>Properties of the general ranking\<close>

lemma filter_key_distinct:
  "distinct (map f xs) \<Longrightarrow> length (filter (\<lambda>x. f x = k) xs) \<le> 1"
proof (induction xs)
  case Nil
  show ?case by simp
next
  case (Cons x xs)
  show ?case
  proof (cases "f x = k")
    case True
    have "f y \<noteq> k" if "y \<in> set xs" for y
      using that Cons.prems True by (metis distinct.simps(2) image_eqI list.simps(9) set_map)
    then have "filter (\<lambda>y. f y = k) xs = []"
      by (simp add: filter_empty_conv)
    with True show ?thesis by simp
  next
    case False
    with Cons show ?thesis by simp
  qed
qed

lemma distinct_ranks:
  "distinct (map classementSecteur (sectorCalculations js_sort snap s))"
  by (simp add: sector_ranks del: upt_Suc)

lemma one_per_sector:
  "length (filter (\<lambda>c. classementSecteur c = place) (sectorCalculations js_sort snap s)) \<le> 1"
  by (rule filter_key_distinct) (rule distinct_ranks)

lemma map_filter_find:
  assumes "\<And>s. s \<in> set ss \<Longrightarrow> length (filter P (calc s)) \<le> 1"
  shows "List.map_filter (\<lambda>s. find P (calc s)) ss = concat (map (\<lambda>s. filter P (calc s)) ss)"
  using assms
proof (induction ss)
  case Nil
  show ?case by (simp add: map_filter_simps)
next
  case (Cons s ss)
  have "length (filter P (calc s)) \<le> 1" using Cons.prems by simp
  then have "(case find P (calc s) of None \<Rightarrow> [] | Some x \<Rightarrow> [x]) = filter P (calc s)"
    by (cases "filter P (calc s)") (auto simp: find_filter)
  moreover have "List.map_filter (\<lambda>s. find P (calc s)) ss = concat (map (\<lambda>s. filter P (calc s)) ss)"
    using Cons by simp
  ultimately show ?case
    by (simp split: option.splits)
qed

lemma collectPlace_atPlace:
  "collectPlace (sectorCalculations js_sort snap) place = atPlace (sectorCalculations js_sort snap) place"
  unfolding collectPlace_def atPlace_def
  by (rule map_filter_find) (rule one_per_sector)

lemma js_sort_place:
  "js_sort place_cmp xs = sort_key (\<lambda>c. (- coefficient c, - biggestCatch c)) xs"
  by (rule js_sort_key) (rule place_cmp_key)

lemma sorted_js_sort_place:
  "sorted_wrt (\<lambda>a b. coefficient a > coefficient b
                    \<or> (coefficient a = coefficient b \<and> biggestCatch a \<ge> biggestCatch b))
     (js_sort place_cmp xs)"
proof -
  have "sorted (map (\<lambda>c. (- coefficient c, - biggestCatch c)) (js_sort place_cmp xs))"
    unfolding js_sort_place by (rule sorted_sort_key)
  then have "sorted_wrt (\<lambda>a b. (- coefficient a, - biggestCatch a) \<le> (- coefficient b, - biggestCatch b))
      (js_sort place_cmp xs)"
    by (simp add: sorted_map)
  then show ?thesis
    by (rule sorted_wrt_mono_rel [rotated]) auto
qed

subsection \<open>The general ranking of the scenario\<close>

lemma places_1_20:
  "[Suc 0..<21] = [Suc 0, 2, 3, 4, 5, 6, 7, 8, 9, 10, 11, 12, 13, 14, 15, 16, 17, 18, 19, 20::nat]"
proof -
  have "[Suc 0..<21] = Suc 0 # [2..<21]" by (simp add: upt_conv_Cons)
  then show ?thesis by simp
qed

lemma scenario_atPlace:
  "atPlace (sectorCalculations js_sort scenario) (Suc 0) =
     [standing ''a3'' ''A'' 1 5 3 0 (1265 / 7) 1 0, standing ''b1'' ''B'' 1 4 1 0 201 1 0]"
  "atPlace (sectorCalculations js_sort scenario) 2 = [standing ''a1'' ''A'' 3 2 10 3 (220 / 7) 2 0]"
  "atPlace (sectorCalculations js_sort scenario) 3 = [standing ''a2'' ''A'' 2 0 0 0 0 3 0]"
  by (simp_all add: atPlace_def sectors_def scenario_sector_A scenario_sector_B
        scenario_sector_empty standing_def)

lemma scenario_atPlace_empty:
  "3 < place \<Longrightarrow> atPlace (sectorCalculations js_sort scenario) place = []"
  by (simp add: atPlace_def sectors_def scenario_sector_A scenario_sector_B
        scenario_sector_empty standing_def)

lemma scenario_placeGroup:
  "placeGroup js_sort (sectorCalculations js_sort scenario) (Suc 0) =
     [standing ''b1'' ''B'' 1 4 1 0 201 1 0, standing ''a3'' ''A'' 1 5 3 0 (1265 / 7) 1 0]"
  "placeGroup js_sort (sectorCalculations js_sort scenario) 2 = [standing ''a1'' ''A'' 3 2 10 3 (220 / 7) 2 0]"
  "placeGroup js_sort (sectorCalculations js_sort scenario) 3 = [standing ''a2'' ''A'' 2 0 0 0 0 3 0]"
  by (simp_all add: placeGroup_def collectPlace_atPlace scenario_atPlace js_sort_def
        place_cmp_def standing_def)

lemma scenario_placeGroup_empty:
  "3 < place \<Longrightarrow> placeGroup js_sort (sectorCalculations js_sort scenario) place = []"
  by (simp add: placeGroup_def collectPlace_atPlace scenario_atPlace_empty js_sort_def)

lemma scenario_generalRanking:
  "generalRanking js_sort (sectorCalculations js_sort scenario) =
     [standing ''b1'' ''B'' 1 4 1 0 201 1 0, standing ''a3'' ''A'' 1 5 3 0 (1265 / 7) 1 0,
      standing ''a1'' ''A'' 3 2 10 3 (220 / 7) 2 0, standing ''a2'' ''A'' 2 0 0 0 0 3 0]"
  by (simp add: generalRanking_def places_1_20 scenario_placeGroup scenario_placeGroup_empty)

text \<open>
  C4. The general-ranking sequence is the concatenation, for place = 1, ..., 20, of the
  place-groups; a place-group holds from every sector at most one competitor, the one whose
  sector rank equals the place, and is sorted by coefficient, highest first, ties by biggest
  catch, highest first. A place-group of one competitor is that competitor.
\<close>

theorem general_ranking_place_groups:
  "generalRanking js_sort (sectorCalculations js_sort snap)
     = concat (map (\<lambda>place. js_sort place_cmp (atPlace (sectorCalculations js_sort snap) place)) [1..<21])
   \<and> (\<forall>place. placeGroup js_sort (sectorCalculations js_sort snap) place
                = js_sort place_cmp (atPlace (sectorCalculations js_sort snap) place))
   \<and> (\<forall>place s. length (filter (\<lambda>c. classementSecteur c = place)
                          (sectorCalculations js_sort snap s)) \<le> 1)
   \<and> (\<forall>place. mset (placeGroup js_sort (sectorCalculations js_sort snap) place)
                = mset (atPlace (sectorCalculations js_sort snap) place))
   \<and> (\<forall>place. sorted_wrt (\<lambda>a b. coefficient a > coefficient b
                    \<or> (coefficient a = coefficient b \<and> biggestCatch a \<ge> biggestCatch b))
                (placeGroup js_sort (sectorCalculations js_sort snap) place))
   \<and> (\<forall>place c. atPlace (sectorCalculations js_sort snap) place = [c]
          \<longrightarrow> placeGroup js_sort (sectorCalculations js_sort snap) place = [c])"
proof -
  have pg: "placeGroup js_sort (sectorCalculations js_sort snap) place
                = js_sort place_cmp (atPlace (sectorCalculations js_sort snap) place)" for place
    by (simp add: placeGroup_def collectPlace_atPlace)
  have single: "placeGroup js_sort (sectorCalculations js_sort snap) place = [c]"
    if "atPlace (sectorCalculations js_sort snap) place = [c]" for place c
    using that by (simp add: pg js_sort_def)
  have "generalRanking js_sort (sectorCalculations js_sort snap)
     = concat (map (\<lambda>place. js_sort place_cmp (atPlace (sectorCalculations js_sort snap) place)) [1..<21])"
    unfolding generalRanking_def using pg by presburger
  moreover have "\<forall>place. sorted_wrt (\<lambda>a b. coefficient a > coefficient b
                    \<or> (coefficient a = coefficient b \<and> biggestCatch a \<ge> biggestCatch b))
                (placeGroup js_sort (sectorCalculations js_sort snap) place)"
    unfolding pg by (simp add: sorted_js_sort_place)
  ultimately show ?thesis
    using pg single one_per_sector by (simp add: mset_js_sort)
qed

theorem general_ranking_place_groups_witness:
  "generalRanking js_sort (sectorCalculations js_sort scenario) =
     [standing ''b1'' ''B'' 1 4 1 0 201 1 0, standing ''a3'' ''A'' 1 5 3 0 (1265 / 7) 1 0,
      standing ''a1'' ''A'' 3 2 10 3 (220 / 7) 2 0, standing ''a2'' ''A'' 2 0 0 0 0 3 0]
   \<and> atPlace (sectorCalculations js_sort scenario) 1 =
     [standing ''a3'' ''A'' 1 5 3 0 (1265 / 7) 1 0, standing ''b1'' ''B'' 1 4 1 0 201 1 0]
   \<and> placeGroup js_sort (sectorCalculations js_sort scenario) 1 =
     [standing ''b1'' ''B'' 1 4 1 0 201 1 0, standing ''a3'' ''A'' 1 5 3 0 (1265 / 7) 1 0]
   \<and> atPlace (sectorCalculations js_sort scenario) 2 = [standing ''a1'' ''A'' 3 2 10 3 (220 / 7) 2 0]
   \<and> placeGroup js_sort (sectorCalculations js_sort scenario) 2 = [standing ''a1'' ''A'' 3 2 10 3 (220 / 7) 2 0]"
proof -
  note inst = general_ranking_place_groups [of scenario]
  have single: "placeGroup js_sort (sectorCalculations js_sort scenario) 2 = [standing ''a1'' ''A'' 3 2 10 3 (220 / 7) 2 0]"
    using inst scenario_atPlace(2) by blast
  have first: "placeGroup js_sort (sectorCalculations js_sort scenario) 1 =
     js_sort place_cmp (atPlace (sectorCalculations js_sort scenario) 1)"
    using inst by blast
  show ?thesis
    using single first
    by (simp add: scenario_generalRanking scenario_atPlace js_sort_def place_cmp_def standing_def)
qed

section \<open>Assignment of the general rank\<close>

lemma length_assignGeneral [simp]: "length (assignGeneral gr) = length (nonZeroCompetitors gr) + length (zeroCoeffCompetitors gr)"
  by (simp add: assignGeneral_def)

lemma nth_assignGeneral_nonZero:
  "i < length (nonZeroCompetitors gr) \<Longrightarrow>
     assignGeneral gr ! i = (nonZeroCompetitors gr ! i)\<lparr>classementGeneral := Suc i\<rparr>"
  by (simp add: assignGeneral_def nth_append nth_enumerate_eq)

lemma take_assignGeneral:
  "take (length (nonZeroCompetitors gr)) (assignGeneral gr)
     = map (\<lambda>(index, comp). comp\<lparr>classementGeneral := index + 1\<rparr>) (enumerate 0 (nonZeroCompetitors gr))"
  by (simp add: assignGeneral_def)

lemma drop_assignGeneral:
  "drop (length (nonZeroCompetitors gr)) (assignGeneral gr)
     = map (\<lambda>comp. comp\<lparr>classementGeneral := 120\<rparr>) (zeroCoeffCompetitors gr)"
  by (simp add: assignGeneral_def)

lemma ranks_nonZero:
  "map classementGeneral (take (length (nonZeroCompetitors gr)) (assignGeneral gr))
     = [1..<Suc (length (nonZeroCompetitors gr))]"
  unfolding take_assignGeneral
  by (rule nth_equalityI) (simp_all add: nth_enumerate_eq del: upt_Suc)

lemma withoutGeneral_assign:
  "map withoutGeneral (assignGeneral gr)
     = map withoutGeneral (nonZeroCompetitors gr @ zeroCoeffCompetitors gr)"
proof -
  have "map withoutGeneral (map (\<lambda>(index, comp). comp\<lparr>classementGeneral := index + 1\<rparr>) (enumerate 0 xs))
      = map withoutGeneral xs" for xs
    by (rule nth_equalityI) (simp_all add: nth_enumerate_eq withoutGeneral_def)
  then show ?thesis
    by (simp add: assignGeneral_def withoutGeneral_def)
qed

lemma withoutGeneral_fields [simp]:
  "coefficient (withoutGeneral c) = coefficient c"
  "sector (withoutGeneral c) = sector c"
  "classementSecteur (withoutGeneral c) = classementSecteur c"
  "boxNumber (withoutGeneral c) = boxNumber c"
  "classementGeneral (withoutGeneral c) = 0"
  by (simp_all add: withoutGeneral_def)

lemma in_assignGeneral_cases:
  assumes "c \<in> set (assignGeneral gr)"
  shows "(\<exists>i < length (nonZeroCompetitors gr). c = (nonZeroCompetitors gr ! i)\<lparr>classementGeneral := Suc i\<rparr>)
       \<or> (\<exists>z \<in> set (zeroCoeffCompetitors gr). c = z\<lparr>classementGeneral := 120\<rparr>)"
proof -
  from assms obtain j where j: "j < length (assignGeneral gr)" "c = assignGeneral gr ! j"
    by (auto simp: in_set_conv_nth)
  show ?thesis
  proof (cases "j < length (nonZeroCompetitors gr)")
    case True
    with j show ?thesis by (auto simp: nth_assignGeneral_nonZero)
  next
    case False
    with j have "c = map (\<lambda>comp. comp\<lparr>classementGeneral := 120\<rparr>) (zeroCoeffCompetitors gr) ! (j - length (nonZeroCompetitors gr))"
      by (simp add: assignGeneral_def nth_append)
    moreover from False j have "j - length (nonZeroCompetitors gr) < length (zeroCoeffCompetitors gr)"
      by simp
    ultimately show ?thesis by (metis (no_types, lifting) length_map nth_map nth_mem)
  qed
qed

lemma scenario_ranked:
  "rankedCompetitors js_sort scenario =
     [standing ''b1'' ''B'' 1 4 1 0 201 1 1, standing ''a3'' ''A'' 1 5 3 0 (1265 / 7) 1 2,
      standing ''a1'' ''A'' 3 2 10 3 (220 / 7) 2 3, standing ''a2'' ''A'' 2 0 0 0 0 3 120]"
  by (simp add: rankedCompetitors_def scenario_generalRanking assignGeneral_def
        nonZeroCompetitors_def zeroCoeffCompetitors_def standing_def enumerate_eq_zip)

text \<open>
  C5. In the general-ranking sequence the competitors with coefficient > 0 receive as
  general rank their 1-based position among the competitors with coefficient > 0, so these
  ranks are 1, 2, ..., up to their number; every competitor with coefficient 0 receives the
  fixed rank 120.
\<close>

theorem general_rank_assignment:
  "map classementGeneral (assignGeneral gr)
     = [1..<Suc (length (filter (\<lambda>c. coefficient c > 0) gr))]
       @ replicate (length (filter (\<lambda>c. coefficient c = 0) gr)) 120
   \<and> map withoutGeneral (assignGeneral gr)
     = map withoutGeneral (filter (\<lambda>c. coefficient c > 0) gr @ filter (\<lambda>c. coefficient c = 0) gr)
   \<and> (\<forall>i < length (filter (\<lambda>c. coefficient c > 0) gr).
         assignGeneral gr ! i = (filter (\<lambda>c. coefficient c > 0) gr ! i)\<lparr>classementGeneral := Suc i\<rparr>)
   \<and> (\<forall>c \<in> set (assignGeneral gr).
         (coefficient c > 0 \<and> 1 \<le> classementGeneral c
            \<and> classementGeneral c \<le> length (filter (\<lambda>c. coefficient c > 0) gr))
         \<or> (coefficient c = 0 \<and> classementGeneral c = 120))"
proof -
  let ?nz = "nonZeroCompetitors gr" and ?z = "zeroCoeffCompetitors gr"
  have "map classementGeneral (assignGeneral gr)
      = map classementGeneral (take (length ?nz) (assignGeneral gr))
        @ map classementGeneral (drop (length ?nz) (assignGeneral gr))"
    by (metis append_take_drop_id map_append)
  also have "\<dots> = [1..<Suc (length ?nz)] @ replicate (length ?z) 120"
    unfolding ranks_nonZero drop_assignGeneral by (simp add: map_replicate_const o_def)
  finally have ranks: "map classementGeneral (assignGeneral gr)
      = [1..<Suc (length ?nz)] @ replicate (length ?z) 120" .
  have each: "(coefficient c > 0 \<and> 1 \<le> classementGeneral c \<and> classementGeneral c \<le> length ?nz)
         \<or> (coefficient c = 0 \<and> classementGeneral c = 120)" if "c \<in> set (assignGeneral gr)" for c
    using in_assignGeneral_cases [OF that]
  proof
    assume "\<exists>i < length ?nz. c = (?nz ! i)\<lparr>classementGeneral := Suc i\<rparr>"
    then obtain i where i: "i < length ?nz" "c = (?nz ! i)\<lparr>classementGeneral := Suc i\<rparr>" by blast
    then have "?nz ! i \<in> set ?nz" by simp
    then have "coefficient (?nz ! i) > 0" by (simp add: nonZeroCompetitors_def)
    with i show ?thesis by simp
  next
    assume "\<exists>z \<in> set ?z. c = z\<lparr>classementGeneral := 120\<rparr>"
    then show ?thesis by (auto simp: zeroCoeffCompetitors_def)
  qed
  show ?thesis
    using ranks each withoutGeneral_assign [of gr] nth_assignGeneral_nonZero [of _ gr]
    unfolding nonZeroCompetitors_def zeroCoeffCompetitors_def by blast
qed

theorem general_rank_assignment_witness:
  "map chip_id (filter (\<lambda>c. coefficient c > 0) (generalRanking js_sort (sectorCalculations js_sort scenario)))
     = [''b1'', ''a3'', ''a1'']
   \<and> map chip_id (filter (\<lambda>c. coefficient c = 0) (generalRanking js_sort (sectorCalculations js_sort scenario)))
     = [''a2'']
   \<and> map chip_id (assignGeneral (generalRanking js_sort (sectorCalculations js_sort scenario)))
     = [''b1'', ''a3'', ''a1'', ''a2'']
   \<and> map classementGeneral (assignGeneral (generalRanking js_sort (sectorCalculations js_sort scenario)))
     = [1, 2, 3, 120]"
proof -
  have nz: "filter (\<lambda>c. coefficient c > 0) (generalRanking js_sort (sectorCalculations js_sort scenario))
      = [standing ''b1'' ''B'' 1 4 1 0 201 1 0, standing ''a3'' ''A'' 1 5 3 0 (1265 / 7) 1 0,
      standing ''a1'' ''A'' 3 2 10 3 (220 / 7) 2 0]"
    and z: "filter (\<lambda>c. coefficient c = 0) (generalRanking js_sort (sectorCalculations js_sort scenario))
      = [standing ''a2'' ''A'' 2 0 0 0 0 3 0]"
    by (simp_all add: scenario_generalRanking standing_def)
  have ids: "map chip_id (assignGeneral (generalRanking js_sort (sectorCalculations js_sort scenario)))
     = [''b1'', ''a3'', ''a1'', ''a2'']"
    using scenario_ranked by (simp add: rankedCompetitors_def standing_def)
  show ?thesis
    using general_rank_assignment [of "generalRanking js_sort (sectorCalculations js_sort scenario)"]
    unfolding nz z using ids by (simp add: standing_def)
qed

section \<open>The standings by sector\<close>

lemma fold_pushChip:
  "fold pushChip xs m k =
     (case m k of
        None \<Rightarrow> (if filter (\<lambda>c. sectorKey c = k) xs = [] then None
                  else Some (filter (\<lambda>c. sectorKey c = k) xs))
      | Some l \<Rightarrow> Some (l @ filter (\<lambda>c. sectorKey c = k) xs))"
proof (induction xs arbitrary: m)
  case Nil
  show ?case by (simp split: option.splits)
next
  case (Cons x xs)
  show ?case
    by (simp add: Cons.IH) (simp add: pushChip_def split: option.splits)
qed

lemma competitorsBySector_filter:
  "competitorsBySector srt snap k =
     (if filter (\<lambda>c. sectorKey c = k) (rankedCompetitors srt snap) = [] then None
      else Some (srt box_cmp (filter (\<lambda>c. sectorKey c = k) (rankedCompetitors srt snap))))"
  by (simp add: competitorsBySector_def fold_pushChip)













lemma in_collectPlaceD:
  assumes "c \<in> set (collectPlace calc place)"
  shows "\<exists>s \<in> set sectors. c \<in> set (calc s) \<and> classementSecteur c = place"
proof -
  from assms obtain s where "s \<in> set sectors"
    "find (\<lambda>comp. classementSecteur comp = place) (calc s) = Some c"
    by (auto simp: collectPlace_def List.map_filter_def)
  then show ?thesis
    by (metis (mono_tags, lifting) find_Some_iff nth_mem)
qed

lemma in_generalRankingD:
  assumes "c \<in> set (generalRanking js_sort calc)"
  shows "\<exists>s \<in> set sectors. c \<in> set (calc s) \<and> 1 \<le> classementSecteur c \<and> classementSecteur c \<le> 20"
proof -
  from assms obtain place where "place \<in> set [1..<21]" "c \<in> set (collectPlace calc place)"
    by (auto simp: generalRanking_def placeGroup_def set_js_sort)
  then show ?thesis
    using in_collectPlaceD [of c calc place] by auto
qed



lemma scenario_bySector:
  "competitorsBySector js_sort scenario ''A'' =
     Some [standing ''a3'' ''A'' 1 5 3 0 (1265 / 7) 1 2, standing ''a2'' ''A'' 2 0 0 0 0 3 120,
           standing ''a1'' ''A'' 3 2 10 3 (220 / 7) 2 3]"
  "competitorsBySector js_sort scenario ''B'' = Some [standing ''b1'' ''B'' 1 4 1 0 201 1 1]"
  by (simp_all add: competitorsBySector_filter scenario_ranked sectorKey_def js_sort_def
        box_cmp_def standing_def)



section \<open>Independence of the sort implementation\<close>

lemma points_cmp_eq: "(points_cmp a b = 0) = (- points a = - points b)"
  by (auto simp: points_cmp_def)

lemma box_cmp_eq: "(box_cmp a b = 0) = (boxNumber a = boxNumber b)"
  by (simp add: box_cmp_def)

lemma place_cmp_eq:
  "(place_cmp a b = 0) = ((- coefficient a, - biggestCatch a) = (- coefficient b, - biggestCatch b))"
  by (auto simp: place_cmp_def)

lemma stable_sort_unique:
  fixes f :: "CompetitorChip \<Rightarrow> 'k::linorder"
  assumes srt: "sortsStably srt cmp"
    and le: "\<And>a b. (cmp a b \<le> 0) = (f a \<le> f b)"
    and eq: "\<And>a b. (cmp a b = 0) = (f a = f b)"
  shows "srt cmp xs = js_sort cmp xs"
proof -
  from srt have m: "mset (srt cmp xs) = mset xs"
    and s: "sorted_wrt (\<lambda>a b. cmp a b \<le> 0) (srt cmp xs)"
    and st: "\<And>x. filter (\<lambda>y. cmp x y = 0) (srt cmp xs) = filter (\<lambda>y. cmp x y = 0) xs"
    unfolding sortsStably_def by blast+
  have "sort_key f xs = srt cmp xs"
  proof (rule properties_for_sort_key)
    show "mset (srt cmp xs) = mset xs" by (rule m)
    show "filter (\<lambda>x. f k = f x) (srt cmp xs) = filter (\<lambda>x. f k = f x) xs" for k
      using st [of k] by (simp add: eq)
    show "sorted (map f (srt cmp xs))"
      using s by (simp add: sorted_map le)
  qed
  then show ?thesis
    by (simp add: js_sort_key [of cmp f, OF le])
qed

lemma js_sort_sortsStably:
  fixes f :: "CompetitorChip \<Rightarrow> 'k::linorder"
  assumes le: "\<And>a b. (cmp a b \<le> 0) = (f a \<le> f b)"
    and eq: "\<And>a b. (cmp a b = 0) = (f a = f b)"
  shows "sortsStably js_sort cmp"
proof -
  have "sorted_wrt (\<lambda>a b. cmp a b \<le> 0) (js_sort cmp xs)" for xs
    using sorted_sort_key [of f xs] by (simp add: js_sort_key [of cmp f, OF le] sorted_map le)
  moreover have "filter (\<lambda>y. cmp x y = 0) (js_sort cmp xs) = filter (\<lambda>y. cmp x y = 0) xs" for x xs
  proof -
    have "(\<lambda>y. cmp x y = 0) = (\<lambda>y. f y = f x)"
      by (auto simp: eq)
    then show ?thesis
      using sort_key_stable [of f "f x" xs] by (simp add: js_sort_key [of cmp f, OF le])
  qed
  ultimately show ?thesis
    by (simp add: sortsStably_def mset_js_sort)
qed

lemma sorters_agree:
  assumes "sortsStably srt points_cmp" "sortsStably srt place_cmp" "sortsStably srt box_cmp"
  shows "srt points_cmp xs = js_sort points_cmp xs"
    and "srt place_cmp xs = js_sort place_cmp xs"
    and "srt box_cmp xs = js_sort box_cmp xs"
  using stable_sort_unique [OF assms(1) points_cmp_key points_cmp_eq]
    stable_sort_unique [OF assms(2) place_cmp_key place_cmp_eq]
    stable_sort_unique [OF assms(3) box_cmp_key box_cmp_eq]
  by simp_all

lemma stages_agree:
  assumes "sortsStably srt points_cmp" "sortsStably srt place_cmp" "sortsStably srt box_cmp"
  shows "sectorCalculations srt snap = sectorCalculations js_sort snap"
    and "rankedCompetitors srt snap = rankedCompetitors js_sort snap"
    and "competitorsBySector srt snap = competitorsBySector js_sort snap"
proof -
  show sec: "sectorCalculations srt snap = sectorCalculations js_sort snap"
    by (rule ext) (simp add: sectorCalculations_def sorters_agree [OF assms])
  have "placeGroup srt calc = placeGroup js_sort calc" for calc
    by (rule ext) (simp add: placeGroup_def sorters_agree [OF assms])
  then show rk: "rankedCompetitors srt snap = rankedCompetitors js_sort snap"
    by (simp add: rankedCompetitors_def generalRanking_def sec)
  have "srt box_cmp = js_sort box_cmp"
    by (rule ext) (simp add: sorters_agree [OF assms])
  then show "competitorsBySector srt snap = competitorsBySector js_sort snap"
    by (simp add: competitorsBySector_def rk)
qed

lemma mset_insert_after: "mset (insert_after cmp x ys) = add_mset x (mset ys)"
  by (induction ys) simp_all

lemma mset_left_sort_acc: "mset (fold (insert_after cmp) xs acc) = mset acc + mset xs"
  by (induction xs arbitrary: acc) (simp_all add: mset_insert_after)

lemma set_insert_after: "set (insert_after cmp x ys) = insert x (set ys)"
  using mset_insert_after [of cmp x ys] by (metis set_mset_add_mset_insert set_mset_mset)

lemma sorted_insert_after:
  fixes f :: "'a \<Rightarrow> 'k::linorder"
  assumes lt: "\<And>a b. (cmp a b < 0) = (f a < f b)"
  shows "sorted (map f ys) \<Longrightarrow> sorted (map f (insert_after cmp x ys))"
proof (induction ys)
  case Nil
  show ?case by simp
next
  case (Cons y ys)
  show ?case
  proof (cases "cmp x y < 0")
    case True
    then have "f x < f y" by (simp add: lt)
    with Cons.prems True show ?thesis by auto
  next
    case False
    then have "f y \<le> f x" by (simp add: lt)
    with Cons False show ?thesis by (auto simp: set_insert_after)
  qed
qed

lemma filter_insert_after:
  fixes f :: "'a \<Rightarrow> 'k::linorder"
  assumes lt: "\<And>a b. (cmp a b < 0) = (f a < f b)"
  shows "sorted (map f ys) \<Longrightarrow>
     filter (\<lambda>y. f y = k) (insert_after cmp x ys)
       = filter (\<lambda>y. f y = k) ys @ (if f x = k then [x] else [])"
proof (induction ys)
  case Nil
  show ?case by simp
next
  case (Cons y ys)
  show ?case
  proof (cases "cmp x y < 0")
    case True
    then have xy: "f x < f y" by (simp add: lt)
    have "filter (\<lambda>y. f y = k) (y # ys) = []" if "f x = k"
    proof -
      have "f z \<noteq> k" if "z \<in> set (y # ys)" for z
        using Cons.prems xy \<open>f x = k\<close> that by auto
      then show ?thesis by (simp add: filter_empty_conv)
    qed
    with True show ?thesis by auto
  next
    case False
    with Cons show ?thesis by simp
  qed
qed

lemma sorted_left_sort_acc:
  fixes f :: "'a \<Rightarrow> 'k::linorder"
  assumes lt: "\<And>a b. (cmp a b < 0) = (f a < f b)"
  shows "sorted (map f acc) \<Longrightarrow> sorted (map f (fold (insert_after cmp) xs acc))"
  by (induction xs arbitrary: acc) (simp_all add: sorted_insert_after [of cmp f, OF lt])

lemma filter_left_sort_acc:
  fixes f :: "'a \<Rightarrow> 'k::linorder"
  assumes lt: "\<And>a b. (cmp a b < 0) = (f a < f b)"
  shows "sorted (map f acc) \<Longrightarrow>
     filter (\<lambda>y. f y = k) (fold (insert_after cmp) xs acc)
       = filter (\<lambda>y. f y = k) acc @ filter (\<lambda>y. f y = k) xs"
proof (induction xs arbitrary: acc)
  case Nil
  show ?case by simp
next
  case (Cons x xs)
  have "sorted (map f (insert_after cmp x acc))"
    using Cons.prems by (rule sorted_insert_after [of cmp f, OF lt])
  then show ?case
    using Cons.prems by (simp add: Cons.IH filter_insert_after [of cmp f, OF lt])
qed

lemma left_sort_sortsStably:
  fixes f :: "CompetitorChip \<Rightarrow> 'k::linorder"
  assumes le: "\<And>a b. (cmp a b \<le> 0) = (f a \<le> f b)"
    and eq: "\<And>a b. (cmp a b = 0) = (f a = f b)"
  shows "sortsStably left_sort cmp"
proof -
  have lt: "(cmp a b < 0) = (f a < f b)" for a b
    using le [of a b] eq [of a b] by (auto simp: less_le)
  have "sorted (map f (left_sort cmp xs))" for xs
    unfolding left_sort_def by (rule sorted_left_sort_acc [of cmp f, OF lt]) simp
  then have "sorted_wrt (\<lambda>a b. cmp a b \<le> 0) (left_sort cmp xs)" for xs
    by (simp add: sorted_map le)
  moreover have "filter (\<lambda>y. cmp x y = 0) (left_sort cmp xs) = filter (\<lambda>y. cmp x y = 0) xs" for x xs
  proof -
    have "(\<lambda>y. cmp x y = 0) = (\<lambda>y. f y = f x)"
      by (auto simp: eq)
    then show ?thesis
      using filter_left_sort_acc [of cmp f "[]" "f x" xs, OF lt] by (simp add: left_sort_def)
  qed
  ultimately show ?thesis
    by (simp add: sortsStably_def left_sort_def mset_left_sort_acc)
qed

lemmas js_sort_stable =
  js_sort_sortsStably [OF points_cmp_key points_cmp_eq]
  js_sort_sortsStably [OF place_cmp_key place_cmp_eq]
  js_sort_sortsStably [OF box_cmp_key box_cmp_eq]

lemmas left_sort_stable =
  left_sort_sortsStably [OF points_cmp_key points_cmp_eq]
  left_sort_sortsStably [OF place_cmp_key place_cmp_eq]
  left_sort_sortsStably [OF box_cmp_key box_cmp_eq]

text \<open>
  C9. The standings are a function of the snapshot alone: the model reads nothing but the
  three arrays, and the only service of the engine it uses, the sort, is determined by its
  contract for the three comparators of the computation. Any two computations from the
  same snapshot, even by engines with different stable sorts, give the same standings, with
  the same sector ranks, general ranks and coefficients.
\<close>

theorem standings_deterministic:
  assumes "sortsStably srt points_cmp" "sortsStably srt place_cmp" "sortsStably srt box_cmp"
    and "sortsStably srt' points_cmp" "sortsStably srt' place_cmp" "sortsStably srt' box_cmp"
  shows "competitorsBySector srt snap = competitorsBySector srt' snap
       \<and> (\<forall>s. sectorCalculations srt snap s = sectorCalculations srt' snap s)
       \<and> rankedCompetitors srt snap = rankedCompetitors srt' snap"
  using stages_agree [OF assms(1,2,3)] stages_agree [OF assms(4,5,6)] by simp

theorem standings_deterministic_witness:
  "sortsStably left_sort points_cmp \<and> sortsStably left_sort place_cmp \<and> sortsStably left_sort box_cmp
   \<and> sortsStably js_sort points_cmp \<and> sortsStably js_sort place_cmp \<and> sortsStably js_sort box_cmp
   \<and> left_sort box_cmp [standing ''a1'' ''A'' 3 2 10 3 (220 / 7) 2 3, standing ''a3'' ''A'' 1 5 3 0 (1265 / 7) 1 2]
      = [standing ''a3'' ''A'' 1 5 3 0 (1265 / 7) 1 2, standing ''a1'' ''A'' 3 2 10 3 (220 / 7) 2 3]
   \<and> competitorsBySector left_sort scenario ''A'' =
     Some [standing ''a3'' ''A'' 1 5 3 0 (1265 / 7) 1 2, standing ''a2'' ''A'' 2 0 0 0 0 3 120,
           standing ''a1'' ''A'' 3 2 10 3 (220 / 7) 2 3]
   \<and> competitorsBySector js_sort scenario ''A'' =
     Some [standing ''a3'' ''A'' 1 5 3 0 (1265 / 7) 1 2, standing ''a2'' ''A'' 2 0 0 0 0 3 120,
           standing ''a1'' ''A'' 3 2 10 3 (220 / 7) 2 3]"
proof -
  have ex: "left_sort box_cmp [standing ''a1'' ''A'' 3 2 10 3 (220 / 7) 2 3, standing ''a3'' ''A'' 1 5 3 0 (1265 / 7) 1 2]
      = [standing ''a3'' ''A'' 1 5 3 0 (1265 / 7) 1 2, standing ''a1'' ''A'' 3 2 10 3 (220 / 7) 2 3]"
    by (simp add: left_sort_def box_cmp_def standing_def)
  show ?thesis
    using standings_deterministic [OF left_sort_stable js_sort_stable, of scenario]
      left_sort_stable js_sort_stable ex
    by (simp add: scenario_bySector)
qed

section \<open>How often a competitor occurs in the result\<close>

lemma count_list_mset_eq: "mset xs = mset ys \<Longrightarrow> count_list xs c = count_list ys c"
  by (metis count_mset)

lemma count_list_filter: "count_list (filter P xs) c = (if P c then count_list xs c else 0)"
  by (induction xs) auto

lemma count_list_distinct: "distinct xs \<Longrightarrow> c \<in> set xs \<Longrightarrow> count_list xs c = 1"
  by (metis count_mset distinct_count_atmost_1)

lemma count_list_map_filter: "count_list (map f xs) c = length (filter (\<lambda>x. f x = c) xs)"
  by (induction xs) auto

lemma sum_list_if_distinct:
  "distinct ps \<Longrightarrow> (\<Sum>p\<leftarrow>ps. if k = p then n else 0) = (if k \<in> set ps then n else (0::nat))"
  by (induction ps) auto

lemma in_sector_fields:
  assumes "c \<in> set (sectorCalculations js_sort snap s)"
  shows "classementGeneral c = 0" "sector c = Some s"
proof -
  from assms obtain i u where u: "u \<in> set (sectorCoefficients snap s)" "c = u\<lparr>classementSecteur := Suc i\<rparr>"
    by (rule in_sectorCalculationsD)
  with sectorCoefficients_unranked [OF u(1)]
  show "classementGeneral c = 0" "sector c = Some s" by simp_all
qed

lemma distinct_sector: "distinct (sectorCalculations js_sort snap s)"
  using distinct_ranks [of snap s] by (rule distinct_map [THEN iffD1, THEN conjunct1])

lemma count_in_sectors:
  assumes "s \<in> set sectors" "c \<in> set (sectorCalculations js_sort snap s)"
  shows "(\<Sum>s'\<leftarrow>sectors. count_list (sectorCalculations js_sort snap s') c) = 1"
proof -
  have other: "count_list (sectorCalculations js_sort snap s') c = (if s = s' then 1 else 0)" for s'
  proof (cases "s = s'")
    case True
    with assms(2) show ?thesis by (simp add: count_list_distinct distinct_sector)
  next
    case False
    have "c \<notin> set (sectorCalculations js_sort snap s')"
      using in_sector_fields(2) [of c snap s'] in_sector_fields(2) [OF assms(2)] False by auto
    with False show ?thesis by simp
  qed
  have "distinct sectors" by (simp add: sectors_def)
  then show ?thesis
    using assms(1) by (simp add: other sum_list_if_distinct)
qed

lemma count_atPlace:
  assumes "s \<in> set sectors" "c \<in> set (sectorCalculations js_sort snap s)"
  shows "count_list (atPlace (sectorCalculations js_sort snap) place) c
           = (if classementSecteur c = place then 1 else 0)"
proof -
  have "count_list (atPlace (sectorCalculations js_sort snap) place) c
      = (\<Sum>s'\<leftarrow>sectors. if classementSecteur c = place
                            then count_list (sectorCalculations js_sort snap s') c else 0)"
    by (simp add: atPlace_def count_list_concat o_def count_list_filter)
  also have "\<dots> = (if classementSecteur c = place
                   then (\<Sum>s'\<leftarrow>sectors. count_list (sectorCalculations js_sort snap s') c) else 0)"
    by simp
  finally show ?thesis
    by (simp add: count_in_sectors [OF assms])
qed

lemma count_placeGroup:
  assumes "s \<in> set sectors" "c \<in> set (sectorCalculations js_sort snap s)"
  shows "count_list (placeGroup js_sort (sectorCalculations js_sort snap) place) c
           = (if classementSecteur c = place then 1 else 0)"
proof -
  have "count_list (placeGroup js_sort (sectorCalculations js_sort snap) place) c
      = count_list (atPlace (sectorCalculations js_sort snap) place) c"
    unfolding placeGroup_def collectPlace_atPlace
    by (rule count_list_mset_eq) (rule mset_js_sort)
  then show ?thesis by (simp add: count_atPlace [OF assms])
qed

lemma count_generalRanking:
  assumes "s \<in> set sectors" "c \<in> set (sectorCalculations js_sort snap s)"
  shows "count_list (generalRanking js_sort (sectorCalculations js_sort snap)) c
           = (if 1 \<le> classementSecteur c \<and> classementSecteur c \<le> 20 then 1 else 0)"
proof -
  have "count_list (generalRanking js_sort (sectorCalculations js_sort snap)) c
      = (\<Sum>place\<leftarrow>[1..<21]. if classementSecteur c = place then 1 else 0)"
    by (simp add: generalRanking_def count_list_concat o_def count_placeGroup [OF assms]
          del: upt_Suc)
  also have "\<dots> = (if classementSecteur c \<in> set [1..<21] then 1 else 0)"
    by (rule sum_list_if_distinct) simp
  finally show ?thesis by (simp del: upt_Suc) 
qed

lemma general_unranked:
  "map withoutGeneral (generalRanking js_sort (sectorCalculations js_sort snap))
     = generalRanking js_sort (sectorCalculations js_sort snap)"
proof (rule map_idI)
  fix g assume "g \<in> set (generalRanking js_sort (sectorCalculations js_sort snap))"
  from in_generalRankingD [OF this] obtain s where "g \<in> set (sectorCalculations js_sort snap s)"
    by blast
  then have "classementGeneral g = 0" by (rule in_sector_fields)
  then show "withoutGeneral g = g" by (simp add: withoutGeneral_def)
qed

lemma withoutGeneral_ranked:
  "map withoutGeneral (rankedCompetitors js_sort snap)
     = filter (\<lambda>c. coefficient c > 0) (generalRanking js_sort (sectorCalculations js_sort snap))
       @ filter (\<lambda>c. coefficient c = 0) (generalRanking js_sort (sectorCalculations js_sort snap))"
proof -
  let ?gr = "generalRanking js_sort (sectorCalculations js_sort snap)"
  have "map withoutGeneral (filter P ?gr) = filter P ?gr" for P
  proof (rule map_idI)
    fix g assume "g \<in> set (filter P ?gr)"
    then have "g \<in> set (map withoutGeneral ?gr)" by (simp add: general_unranked)
    then obtain g' where "g' \<in> set ?gr" "g = withoutGeneral g'" by auto
    then show "withoutGeneral g = g" by (simp add: withoutGeneral_def)
  qed
  then show ?thesis
    by (simp add: rankedCompetitors_def withoutGeneral_assign nonZeroCompetitors_def
          zeroCoeffCompetitors_def)
qed

lemma count_ranked:
  assumes "s \<in> set sectors" "c \<in> set (sectorCalculations js_sort snap s)"
  shows "length (filter (\<lambda>x. withoutGeneral x = c) (rankedCompetitors js_sort snap))
           = (if classementSecteur c \<le> 20 \<and> 0 \<le> coefficient c then 1 else 0)"
proof -
  have pos: "1 \<le> classementSecteur c"
    using assms(2) by (rule in_sectorCalculationsD) simp
  have "length (filter (\<lambda>x. withoutGeneral x = c) (rankedCompetitors js_sort snap))
      = count_list (map withoutGeneral (rankedCompetitors js_sort snap)) c"
    by (simp add: count_list_map_filter)
  also have "\<dots> = (if 0 < coefficient c then count_list (generalRanking js_sort (sectorCalculations js_sort snap)) c else 0)
                 + (if coefficient c = 0 then count_list (generalRanking js_sort (sectorCalculations js_sort snap)) c else 0)"
    by (simp add: withoutGeneral_ranked count_list_filter)
  also have "\<dots> = (if 0 \<le> coefficient c then count_list (generalRanking js_sort (sectorCalculations js_sort snap)) c else 0)"
    by auto
  finally show ?thesis
    using pos by (simp add: count_generalRanking [OF assms])
qed

lemma sectorStandings_filter:
  "sectorStandings js_sort snap k
     = js_sort box_cmp (filter (\<lambda>c. sectorKey c = k) (rankedCompetitors js_sort snap))"
  by (simp add: sectorStandings_def competitorsBySector_filter js_sort_def)

lemma length_filter_js_sort:
  "length (filter Q (js_sort cmp xs)) = length (filter Q xs)"
  by (metis mset_filter mset_js_sort size_mset)

lemma count_standings:
  assumes "s \<in> set sectors" "c \<in> set (sectorCalculations js_sort snap s)"
  shows "length (filter (\<lambda>x. withoutGeneral x = c) (sectorStandings js_sort snap k))
           = (if k = s \<and> classementSecteur c \<le> 20 \<and> 0 \<le> coefficient c then 1 else 0)"
proof -
  have key: "sectorKey x = s" if "withoutGeneral x = c" for x
  proof -
    have "sector x = sector c" using that by (metis withoutGeneral_fields(2))
    then show ?thesis by (simp add: sectorKey_def in_sector_fields(2) [OF assms(2)])
  qed
  have eq: "filter (\<lambda>x. withoutGeneral x = c) (filter (\<lambda>x. sectorKey x = k) (rankedCompetitors js_sort snap))
      = (if k = s then filter (\<lambda>x. withoutGeneral x = c) (rankedCompetitors js_sort snap) else [])"
    using key by (auto simp: filter_empty_conv intro: filter_cong)
  have "length (filter (\<lambda>x. withoutGeneral x = c) (sectorStandings js_sort snap k))
      = length (filter (\<lambda>x. withoutGeneral x = c)
          (filter (\<lambda>x. sectorKey x = k) (rankedCompetitors js_sort snap)))"
    unfolding sectorStandings_filter by (rule length_filter_js_sort)
  also have "\<dots> = (if k = s
      then length (filter (\<lambda>x. withoutGeneral x = c) (rankedCompetitors js_sort snap)) else 0)"
    unfolding eq by simp
  finally show ?thesis
    unfolding count_ranked [OF assms] by simp
qed

lemma coefficient_nonneg:
  assumes "nonNegativeEntries snap" "c \<in> set (sectorCalculations js_sort snap s)"
  shows "0 \<le> coefficient c"
proof -
  have f: "0 \<le> fishCount (calcCompetitor snap d)" and w: "0 \<le> totalWeight (calcCompetitor snap d)" for d
    using assms(1) unfolding calc_totals nonNegativeEntries_def countedEntries_def
    by (auto intro!: sum_list_nonneg)
  then have p: "0 \<le> points (calcCompetitor snap d)" for d
    by (simp add: calc_totals(3))
  from assms(2) obtain i u where u: "u \<in> set (sectorCoefficients snap s)" "c = u\<lparr>classementSecteur := Suc i\<rparr>"
    by (rule in_sectorCalculationsD)
  from u(1) obtain d where "u = setCoefficient (sectorTotalNbPrises snap s) (calcCompetitor snap d)"
    by (auto simp: sectorCoefficients_def sectorCalculated_def)
  with u(2) show ?thesis
    using f [of d] p [of d] by simp
qed

section \<open>The general ranking of the crowded sector\<close>

lemma standing_sel [simp]:
  "chip_id (standing i s b f w g k rs rg) = i"
  "sector (standing i s b f w g k rs rg) = Some s"
  "boxNumber (standing i s b f w g k rs rg) = b"
  "fishCount (standing i s b f w g k rs rg) = f"
  "totalWeight (standing i s b f w g k rs rg) = w"
  "points (standing i s b f w g k rs rg) = f * 50 + w"
  "biggestCatch (standing i s b f w g k rs rg) = g"
  "coefficient (standing i s b f w g k rs rg) = k"
  "classementSecteur (standing i s b f w g k rs rg) = rs"
  "classementGeneral (standing i s b f w g k rs rg) = rg"
  "(standing i s b f w g k rs rg)\<lparr>classementGeneral := n\<rparr> = standing i s b f w g k rs n"
  "withoutGeneral (standing i s b f w g k rs rg) = standing i s b f w g k rs 0"
  "sectorKey (standing i s b f w g k rs rg) = s"
  by (simp_all add: standing_def withoutGeneral_def sectorKey_def)

lemma standing_eq_iff:
  "(standing i s b f w g k rs rg = standing i' s' b' f' w' g' k' rs' rg')
     = (i = i' \<and> s = s' \<and> b = b' \<and> f = f' \<and> w = w' \<and> g = g' \<and> k = k' \<and> rs = rs' \<and> rg = rg')"
  by (auto simp: standing_def)

lemma js_sort_single [simp]: "js_sort cmp [] = []" "js_sort cmp [x] = [x]"
  by (simp_all add: js_sort_def)

lemma crowded_atPlace:
  "atPlace (sectorCalculations js_sort crowded) place =
     filter (\<lambda>c. classementSecteur c = place) (sectorCalculations js_sort crowded ''A'')"
  by (simp add: atPlace_def sectors_def crowded_sector_empty)

lemma crowded_general:
  "generalRanking js_sort (sectorCalculations js_sort crowded) =
     [standing ''p21'' ''A'' 21 1 1 0 51 1 0,
      standing ''p01'' ''A'' 1 0 0 0 0 2 0, standing ''p02'' ''A'' 2 0 0 0 0 3 0,
      standing ''p03'' ''A'' 3 0 0 0 0 4 0, standing ''p04'' ''A'' 4 0 0 0 0 5 0,
      standing ''p05'' ''A'' 5 0 0 0 0 6 0, standing ''p06'' ''A'' 6 0 0 0 0 7 0,
      standing ''p07'' ''A'' 7 0 0 0 0 8 0, standing ''p08'' ''A'' 8 0 0 0 0 9 0,
      standing ''p09'' ''A'' 9 0 0 0 0 10 0, standing ''p10'' ''A'' 10 0 0 0 0 11 0,
      standing ''p11'' ''A'' 11 0 0 0 0 12 0, standing ''p12'' ''A'' 12 0 0 0 0 13 0,
      standing ''p13'' ''A'' 13 0 0 0 0 14 0, standing ''p14'' ''A'' 14 0 0 0 0 15 0,
      standing ''p15'' ''A'' 15 0 0 0 0 16 0, standing ''p16'' ''A'' 16 0 0 0 0 17 0,
      standing ''p17'' ''A'' 17 0 0 0 0 18 0, standing ''p18'' ''A'' 18 0 0 0 0 19 0,
      standing ''p19'' ''A'' 19 0 0 0 0 20 0]"
  unfolding generalRanking_def placeGroup_def collectPlace_atPlace crowded_atPlace
    crowded_sector_A places_1_20 [unfolded One_nat_def [symmetric]]
  by simp

lemma crowded_ranked:
  "rankedCompetitors js_sort crowded =
     [standing ''p21'' ''A'' 21 1 1 0 51 1 1,
      standing ''p01'' ''A'' 1 0 0 0 0 2 120, standing ''p02'' ''A'' 2 0 0 0 0 3 120,
      standing ''p03'' ''A'' 3 0 0 0 0 4 120, standing ''p04'' ''A'' 4 0 0 0 0 5 120,
      standing ''p05'' ''A'' 5 0 0 0 0 6 120, standing ''p06'' ''A'' 6 0 0 0 0 7 120,
      standing ''p07'' ''A'' 7 0 0 0 0 8 120, standing ''p08'' ''A'' 8 0 0 0 0 9 120,
      standing ''p09'' ''A'' 9 0 0 0 0 10 120, standing ''p10'' ''A'' 10 0 0 0 0 11 120,
      standing ''p11'' ''A'' 11 0 0 0 0 12 120, standing ''p12'' ''A'' 12 0 0 0 0 13 120,
      standing ''p13'' ''A'' 13 0 0 0 0 14 120, standing ''p14'' ''A'' 14 0 0 0 0 15 120,
      standing ''p15'' ''A'' 15 0 0 0 0 16 120, standing ''p16'' ''A'' 16 0 0 0 0 17 120,
      standing ''p17'' ''A'' 17 0 0 0 0 18 120, standing ''p18'' ''A'' 18 0 0 0 0 19 120,
      standing ''p19'' ''A'' 19 0 0 0 0 20 120]"
  unfolding rankedCompetitors_def crowded_general
  by (simp add: assignGeneral_def nonZeroCompetitors_def zeroCoeffCompetitors_def enumerate_eq_zip)

lemma crowded_standings:
  "sectorStandings js_sort crowded ''A'' =
     [standing ''p01'' ''A'' 1 0 0 0 0 2 120, standing ''p02'' ''A'' 2 0 0 0 0 3 120,
      standing ''p03'' ''A'' 3 0 0 0 0 4 120, standing ''p04'' ''A'' 4 0 0 0 0 5 120,
      standing ''p05'' ''A'' 5 0 0 0 0 6 120, standing ''p06'' ''A'' 6 0 0 0 0 7 120,
      standing ''p07'' ''A'' 7 0 0 0 0 8 120, standing ''p08'' ''A'' 8 0 0 0 0 9 120,
      standing ''p09'' ''A'' 9 0 0 0 0 10 120, standing ''p10'' ''A'' 10 0 0 0 0 11 120,
      standing ''p11'' ''A'' 11 0 0 0 0 12 120, standing ''p12'' ''A'' 12 0 0 0 0 13 120,
      standing ''p13'' ''A'' 13 0 0 0 0 14 120, standing ''p14'' ''A'' 14 0 0 0 0 15 120,
      standing ''p15'' ''A'' 15 0 0 0 0 16 120, standing ''p16'' ''A'' 16 0 0 0 0 17 120,
      standing ''p17'' ''A'' 17 0 0 0 0 18 120, standing ''p18'' ''A'' 18 0 0 0 0 19 120,
      standing ''p19'' ''A'' 19 0 0 0 0 20 120, standing ''p21'' ''A'' 21 1 1 0 51 1 1]"
  unfolding sectorStandings_filter crowded_ranked
  by (simp add: js_sort_def box_cmp_def)

section \<open>Competitors without counted entries\<close>

lemma in_ranked_rank:
  assumes "y \<in> set (rankedCompetitors js_sort snap)" "coefficient y = 0"
  shows "classementGeneral y = 120"
proof -
  let ?gr = "generalRanking js_sort (sectorCalculations js_sort snap)"
  from assms(1) have "y \<in> set (assignGeneral ?gr)" by (simp add: rankedCompetitors_def)
  from in_assignGeneral_cases [OF this] show ?thesis
  proof
    assume "\<exists>i < length (nonZeroCompetitors ?gr). y = (nonZeroCompetitors ?gr ! i)\<lparr>classementGeneral := Suc i\<rparr>"
    then obtain i where i: "i < length (nonZeroCompetitors ?gr)"
      "y = (nonZeroCompetitors ?gr ! i)\<lparr>classementGeneral := Suc i\<rparr>" by blast
    then have "nonZeroCompetitors ?gr ! i \<in> set (nonZeroCompetitors ?gr)" by simp
    then have "0 < coefficient (nonZeroCompetitors ?gr ! i)" by (simp add: nonZeroCompetitors_def)
    with i(2) assms(2) show ?thesis by simp
  next
    assume "\<exists>z \<in> set (zeroCoeffCompetitors ?gr). y = z\<lparr>classementGeneral := 120\<rparr>"
    then show ?thesis by auto
  qed
qed

lemma set_sectorStandings:
  "set (sectorStandings js_sort snap k) \<subseteq> set (rankedCompetitors js_sort snap)"
  by (auto simp: sectorStandings_filter set_js_sort)

lemma zero_standing_listed:
  assumes "s \<in> set sectors" "x \<in> set (sectorCalculations js_sort snap s)"
    "coefficient x = 0" "classementSecteur x \<le> 20"
  shows "x\<lparr>classementGeneral := 120\<rparr> \<in> set (sectorStandings js_sort snap s)"
proof -
  have "length (filter (\<lambda>y. withoutGeneral y = x) (sectorStandings js_sort snap s)) = 1"
    using assms(3,4) by (simp add: count_standings [OF assms(1,2)])
  then have "filter (\<lambda>y. withoutGeneral y = x) (sectorStandings js_sort snap s) \<noteq> []"
    by auto
  then obtain y where y: "y \<in> set (sectorStandings js_sort snap s)" "withoutGeneral y = x"
    by (auto simp: filter_empty_conv)
  then have "coefficient y = 0" using assms(3) by (metis withoutGeneral_fields(1))
  moreover have "y \<in> set (rankedCompetitors js_sort snap)"
    using y(1) set_sectorStandings by blast
  ultimately have "classementGeneral y = 120" by (rule in_ranked_rank [rotated])
  then have "y = (withoutGeneral y)\<lparr>classementGeneral := 120\<rparr>"
    by (simp add: withoutGeneral_def)
  with y show ?thesis by simp
qed

lemma setCoefficient_zero:
  "coefficient u = 0 \<Longrightarrow> fishCount u = 0 \<Longrightarrow> setCoefficient t u = u"
  by (simp add: setCoefficient_def)

lemma zero_entries_calc:
  assumes "countedEntries (firestoreHourlyEntries snap) (c_id d) = []"
    "countedBigCatches (firestoreBigCatches snap) (c_id d) = []"
  shows "fishCount (calcCompetitor snap d) = 0" "totalWeight (calcCompetitor snap d) = 0"
    "biggestCatch (calcCompetitor snap d) = 0" "points (calcCompetitor snap d) = 0"
  using assms by (simp_all add: calc_totals grossePrise_eq)

text \<open>
  C6, as the code has it. A competitor of a sector A..F without counted hourly entry and
  without counted big catch has a standing in the sector ranking with fish count, total
  weight, biggest catch, points and coefficient 0; whenever its sector rank is at most 20
  (so always in a sector of at most 20 competitors) it is in the result with the general
  rank 120.
\<close>

theorem zero_entries_standing:
  assumes "d \<in> set (firestoreCompetitors snap)" "c_sector d = Some s" "s \<in> set sectors"
    and "countedEntries (firestoreHourlyEntries snap) (c_id d) = []"
    and "countedBigCatches (firestoreBigCatches snap) (c_id d) = []"
  shows "\<exists>x \<in> set (sectorCalculations js_sort snap s).
           withoutSecteur x = calcCompetitor snap d
         \<and> fishCount x = 0 \<and> totalWeight x = 0 \<and> biggestCatch x = 0 \<and> points x = 0
         \<and> coefficient x = 0
         \<and> 1 \<le> classementSecteur x \<and> classementSecteur x \<le> length (sectorCompetitors snap s)
         \<and> (classementSecteur x \<le> 20 \<longrightarrow>
              x\<lparr>classementGeneral := 120\<rparr> \<in> set (sectorStandings js_sort snap s))"
proof -
  let ?u = "calcCompetitor snap d"
  note z = zero_entries_calc [OF assms(4,5)]
  have "?u \<in> set (sectorCalculated snap s)"
    using assms(1,2) by (simp add: sectorCalculated_def sectorCompetitors_def)
  then have "setCoefficient (sectorTotalNbPrises snap s) ?u \<in> set (sectorCoefficients snap s)"
    by (simp add: sectorCoefficients_def)
  then have "?u \<in> set (js_sort points_cmp (sectorCoefficients snap s))"
    by (simp add: setCoefficient_zero z set_js_sort)
  then obtain i where i: "i < length (sectorCompetitors snap s)"
    "js_sort points_cmp (sectorCoefficients snap s) ! i = ?u"
    by (auto simp: in_set_conv_nth length_js_sort)
  define x where "x = ?u\<lparr>classementSecteur := Suc i\<rparr>"
  have nth: "sectorCalculations js_sort snap s ! i = x"
    using i by (simp add: sectorCalculations_def nth_assignSecteur length_js_sort x_def)
  then have mem: "x \<in> set (sectorCalculations js_sort snap s)"
    using i(1) by (metis length_sectorCalculations nth_mem)
  have fields: "withoutSecteur x = ?u" "fishCount x = 0" "totalWeight x = 0" "biggestCatch x = 0"
    "points x = 0" "coefficient x = 0" "classementSecteur x = Suc i"
    using z by (simp_all add: x_def withoutSecteur_def)
  have "x\<lparr>classementGeneral := 120\<rparr> \<in> set (sectorStandings js_sort snap s)"
    if "classementSecteur x \<le> 20"
    using assms(3) mem fields(6) that by (rule zero_standing_listed)
  with mem fields i(1) show ?thesis by auto
qed

theorem zero_entries_standing_witness:
  "competitorDoc ''a2'' (Some ''A'') 2 \<in> set (firestoreCompetitors scenario)
   \<and> ''A'' \<in> set sectors
   \<and> countedEntries (firestoreHourlyEntries scenario) ''a2'' = []
   \<and> countedBigCatches (firestoreBigCatches scenario) ''a2'' = []
   \<and> calcCompetitor scenario (competitorDoc ''a2'' (Some ''A'') 2) = standing ''a2'' ''A'' 2 0 0 0 0 0 0
   \<and> standing ''a2'' ''A'' 2 0 0 0 0 3 0 \<in> set (sectorCalculations js_sort scenario ''A'')
   \<and> standing ''a2'' ''A'' 2 0 0 0 0 3 120 \<in> set (sectorStandings js_sort scenario ''A'')"
proof -
  have m: "competitorDoc ''a2'' (Some ''A'') 2 \<in> set (firestoreCompetitors scenario)"
    by (simp add: scenario_def)
  have s: "c_sector (competitorDoc ''a2'' (Some ''A'') 2) = Some ''A''" by simp
  have a: "''A'' \<in> set sectors" by (simp add: sectors_def)
  have e: "countedEntries (firestoreHourlyEntries scenario) (c_id (competitorDoc ''a2'' (Some ''A'') 2)) = []"
    by (simp add: countedEntries_def scenario_defs image_iff)
  have b: "countedBigCatches (firestoreBigCatches scenario) (c_id (competitorDoc ''a2'' (Some ''A'') 2)) = []"
    by (simp add: countedBigCatches_def scenario_defs)
  have c: "calcCompetitor scenario (competitorDoc ''a2'' (Some ''A'') 2) = standing ''a2'' ''A'' 2 0 0 0 0 0 0"
    using e b by (simp add: calcCompetitor_def sumHours_eq grossePrise_eq competitorDoc_def standing_def)
  from zero_entries_standing [OF m s a e b]
  obtain x where x: "x \<in> set (sectorCalculations js_sort scenario ''A'')"
    "withoutSecteur x = calcCompetitor scenario (competitorDoc ''a2'' (Some ''A'') 2)"
    "classementSecteur x \<le> 20 \<longrightarrow> x\<lparr>classementGeneral := 120\<rparr> \<in> set (sectorStandings js_sort scenario ''A'')"
    by blast
  from x(1,2) have "x = standing ''a2'' ''A'' 2 0 0 0 0 3 0"
    unfolding c scenario_sector_A by (auto simp: withoutSecteur_def standing_def)
  with x(1,3) have "standing ''a2'' ''A'' 2 0 0 0 0 3 0 \<in> set (sectorCalculations js_sort scenario ''A'')"
    "standing ''a2'' ''A'' 2 0 0 0 0 3 120 \<in> set (sectorStandings js_sort scenario ''A'')"
    by simp_all
  with m a e b c show ?thesis by simp
qed

text \<open>
  The bound is needed: in the crowded sector the competitor \<open>p20\<close> has no counted entry,
  holds sector rank 21 and is in neither the general-ranking sequence nor the result. So is
  the sector: the record \<open>x1\<close> of the scenario has no sector and no standing.
\<close>

theorem zero_entries_omitted_counterexample:
  "competitorDoc ''p20'' (Some ''A'') 20 \<in> set (firestoreCompetitors crowded)
   \<and> countedEntries (firestoreHourlyEntries crowded) ''p20'' = []
   \<and> countedBigCatches (firestoreBigCatches crowded) ''p20'' = []
   \<and> sectorCalculations js_sort crowded ''A'' ! 20 = standing ''p20'' ''A'' 20 0 0 0 0 21 0
   \<and> ''p20'' \<notin> set (map chip_id (generalRanking js_sort (sectorCalculations js_sort crowded)))
   \<and> ''p20'' \<notin> set (map chip_id (rankedCompetitors js_sort crowded))
   \<and> ''p20'' \<notin> set (map chip_id (sectorStandings js_sort crowded ''A''))
   \<and> length (sectorStandings js_sort crowded ''A'') = 20
   \<and> competitorDoc ''x1'' None 1 \<in> set (firestoreCompetitors scenario)
   \<and> countedEntries (firestoreHourlyEntries scenario) ''x1'' = []
   \<and> countedBigCatches (firestoreBigCatches scenario) ''x1'' = []
   \<and> ''x1'' \<notin> set (map chip_id (rankedCompetitors js_sort scenario))"
proof -
  have "competitorDoc ''x1'' None 1 \<in> set (firestoreCompetitors scenario)"
    by (simp add: scenario_def)
  moreover have "countedEntries (firestoreHourlyEntries scenario) ''x1'' = []"
    by (simp add: countedEntries_def scenario_defs)
  moreover have "countedBigCatches (firestoreBigCatches scenario) ''x1'' = []"
    by (simp add: countedBigCatches_def scenario_defs)
  moreover have "''x1'' \<notin> set (map chip_id (rankedCompetitors js_sort scenario))"
    unfolding scenario_ranked by simp
  moreover
  have "competitorDoc ''p20'' (Some ''A'') 20 \<in> set (firestoreCompetitors crowded)"
    by (simp add: crowded_competitors)
  moreover have "countedEntries (firestoreHourlyEntries crowded) ''p20'' = []"
    by (simp add: countedEntries_def crowded_def hourlyEntry_def)
  moreover have "countedBigCatches (firestoreBigCatches crowded) ''p20'' = []"
    by (simp add: countedBigCatches_def crowded_def)
  moreover have "sectorCalculations js_sort crowded ''A'' ! 20 = standing ''p20'' ''A'' 20 0 0 0 0 21 0"
    unfolding crowded_sector_A by simp
  moreover have "''p20'' \<notin> set (map chip_id (generalRanking js_sort (sectorCalculations js_sort crowded)))"
    unfolding crowded_general by simp
  moreover have "''p20'' \<notin> set (map chip_id (rankedCompetitors js_sort crowded))"
    unfolding crowded_ranked by simp
  moreover have "''p20'' \<notin> set (map chip_id (sectorStandings js_sort crowded ''A''))"
    unfolding crowded_standings by simp
  moreover have "length (sectorStandings js_sort crowded ''A'') = 20"
    unfolding crowded_standings by simp
  ultimately show ?thesis by blast
qed

text \<open>
  C10, as the code has it. A standing of a sector is collected into the place-group of its
  sector rank and into no other, so it occurs once in the general-ranking sequence when its
  sector rank is at most 20 and not at all otherwise. In the result it occurs once under
  the key of its sector when its rank is at most 20 and its coefficient is not negative,
  and nowhere otherwise: a standing with a negative coefficient passes neither the filter
  \<^verbatim>\<open>coefficient > 0\<close> nor the filter \<^verbatim>\<open>coefficient === 0\<close>. With fish counts and
  weights that are not negative no coefficient is negative. A standing of rank above 20 is
  in no place-group of the loop and absent from the result.
\<close>

theorem place_limit_twenty:
  assumes "s \<in> set sectors" and "c \<in> set (sectorCalculations js_sort snap s)"
  shows "(\<forall>place. count_list (placeGroup js_sort (sectorCalculations js_sort snap) place) c
                    = (if place = classementSecteur c then 1 else 0))
       \<and> count_list (generalRanking js_sort (sectorCalculations js_sort snap)) c
            = (if classementSecteur c \<le> 20 then 1 else 0)
       \<and> (\<forall>k. length (filter (\<lambda>x. withoutGeneral x = c) (sectorStandings js_sort snap k))
                = (if k = s \<and> classementSecteur c \<le> 20 \<and> 0 \<le> coefficient c then 1 else 0))
       \<and> (nonNegativeEntries snap \<longrightarrow> 0 \<le> coefficient c)
       \<and> (nonNegativeEntries snap \<longrightarrow>
            (\<forall>k. length (filter (\<lambda>x. withoutGeneral x = c) (sectorStandings js_sort snap k))
                = (if k = s \<and> classementSecteur c \<le> 20 then 1 else 0)))
       \<and> (20 < classementSecteur c \<longrightarrow>
            c \<notin> set (generalRanking js_sort (sectorCalculations js_sort snap))
            \<and> (\<forall>k. \<forall>x \<in> set (sectorStandings js_sort snap k). withoutGeneral x \<noteq> c))"
proof -
  have pos: "1 \<le> classementSecteur c"
    using assms(2) by (rule in_sectorCalculationsD) simp
  have pg: "count_list (placeGroup js_sort (sectorCalculations js_sort snap) place) c
                    = (if place = classementSecteur c then 1 else 0)" for place
    by (auto simp: count_placeGroup [OF assms])
  have gr: "count_list (generalRanking js_sort (sectorCalculations js_sort snap)) c
            = (if classementSecteur c \<le> 20 then 1 else 0)"
    using pos by (simp add: count_generalRanking [OF assms])
  note st = count_standings [OF assms]
  have nn: "0 \<le> coefficient c" if "nonNegativeEntries snap"
    using that assms(2) by (rule coefficient_nonneg)
  have out: "c \<notin> set (generalRanking js_sort (sectorCalculations js_sort snap))
            \<and> (\<forall>k. \<forall>x \<in> set (sectorStandings js_sort snap k). withoutGeneral x \<noteq> c)"
    if big: "20 < classementSecteur c"
  proof
    show "c \<notin> set (generalRanking js_sort (sectorCalculations js_sort snap))"
      using gr big by (simp add: count_list_0_iff)
    have "filter (\<lambda>x. withoutGeneral x = c) (sectorStandings js_sort snap k) = []" for k
      using st [of k] big by simp
    then show "\<forall>k. \<forall>x \<in> set (sectorStandings js_sort snap k). withoutGeneral x \<noteq> c"
      by (simp add: filter_empty_conv)
  qed
  show ?thesis
    using pg gr st nn out by simp
qed

theorem place_limit_twenty_witness:
  "''A'' \<in> set sectors
   \<and> nonNegativeEntries crowded
   \<and> standing ''p20'' ''A'' 20 0 0 0 0 21 0 \<in> set (sectorCalculations js_sort crowded ''A'')
   \<and> standing ''p20'' ''A'' 20 0 0 0 0 21 0
        \<notin> set (generalRanking js_sort (sectorCalculations js_sort crowded))
   \<and> length (filter (\<lambda>x. withoutGeneral x = standing ''p20'' ''A'' 20 0 0 0 0 21 0)
        (sectorStandings js_sort crowded ''A'')) = 0
   \<and> standing ''p19'' ''A'' 19 0 0 0 0 20 0 \<in> set (sectorCalculations js_sort crowded ''A'')
   \<and> count_list (generalRanking js_sort (sectorCalculations js_sort crowded))
        (standing ''p19'' ''A'' 19 0 0 0 0 20 0) = 1
   \<and> length (filter (\<lambda>x. withoutGeneral x = standing ''p19'' ''A'' 19 0 0 0 0 20 0)
        (sectorStandings js_sort crowded ''A'')) = 1
   \<and> length (filter (\<lambda>x. withoutGeneral x = standing ''p19'' ''A'' 19 0 0 0 0 20 0)
        (sectorStandings js_sort crowded ''B'')) = 0"
proof -
  have a: "''A'' \<in> set sectors" by (simp add: sectors_def)
  have n: "nonNegativeEntries crowded"
    by (simp add: nonNegativeEntries_def crowded_def hourlyEntry_def)
  have m20: "standing ''p20'' ''A'' 20 0 0 0 0 21 0 \<in> set (sectorCalculations js_sort crowded ''A'')"
    and m19: "standing ''p19'' ''A'' 19 0 0 0 0 20 0 \<in> set (sectorCalculations js_sort crowded ''A'')"
    unfolding crowded_sector_A by simp_all
  show ?thesis
    using place_limit_twenty [OF a m20] place_limit_twenty [OF a m19] a n m20 m19
    by simp
qed

subsection \<open>The sector with a negative weight\<close>

lemma negative_sector_A:
  "sectorCalculations js_sort negativeWeight ''A'' =
     [standing ''n1'' ''A'' 1 2 10 0 55 1 0, standing ''n2'' ''A'' 2 1 5 0 (55 / 4) 2 0,
      standing ''n3'' ''A'' 3 1 (- 100) 0 (- 25 / 2) 3 0]"
  by (simp add: negativeWeight_def competitorDoc_def hourlyEntry_def stage_defs standing_def)

lemma negative_sector_empty:
  "s \<noteq> ''A'' \<Longrightarrow> sectorCalculations js_sort negativeWeight s = []"
  by (simp add: negativeWeight_def competitorDoc_def stage_defs)

lemma negative_general:
  "generalRanking js_sort (sectorCalculations js_sort negativeWeight) =
     [standing ''n1'' ''A'' 1 2 10 0 55 1 0, standing ''n2'' ''A'' 2 1 5 0 (55 / 4) 2 0,
      standing ''n3'' ''A'' 3 1 (- 100) 0 (- 25 / 2) 3 0]"
proof -
  have at: "atPlace (sectorCalculations js_sort negativeWeight) place =
      filter (\<lambda>c. classementSecteur c = place) (sectorCalculations js_sort negativeWeight ''A'')"
    for place
    by (simp add: atPlace_def sectors_def negative_sector_empty)
  show ?thesis
    unfolding generalRanking_def placeGroup_def collectPlace_atPlace at negative_sector_A
      places_1_20 [unfolded One_nat_def [symmetric]]
    by simp
qed

lemma negative_ranked:
  "rankedCompetitors js_sort negativeWeight =
     [standing ''n1'' ''A'' 1 2 10 0 55 1 1, standing ''n2'' ''A'' 2 1 5 0 (55 / 4) 2 2]"
  unfolding rankedCompetitors_def negative_general
  by (simp add: assignGeneral_def nonZeroCompetitors_def zeroCoeffCompetitors_def enumerate_eq_zip
        standing_eq_iff)

lemma negative_standings:
  "sectorStandings js_sort negativeWeight ''A'' =
     [standing ''n1'' ''A'' 1 2 10 0 55 1 1, standing ''n2'' ''A'' 2 1 5 0 (55 / 4) 2 2]"
  unfolding sectorStandings_filter negative_ranked
  by (simp add: js_sort_def box_cmp_def)

text \<open>
  Without the condition on the coefficient the statement fails: the competitor \<open>n3\<close> holds
  sector rank 3 and is collected into the third place-group, its coefficient is -25/2, it
  receives no general rank and is nowhere in the result.
\<close>

theorem negative_coefficient_omitted_counterexample:
  "''A'' \<in> set sectors
   \<and> competitorDoc ''n3'' (Some ''A'') 3 \<in> set (firestoreCompetitors negativeWeight)
   \<and> sectorCalculations js_sort negativeWeight ''A'' ! 2
        = standing ''n3'' ''A'' 3 1 (- 100) 0 (- 25 / 2) 3 0
   \<and> classementSecteur (sectorCalculations js_sort negativeWeight ''A'' ! 2) = 3
   \<and> coefficient (sectorCalculations js_sort negativeWeight ''A'' ! 2) = - 25 / 2
   \<and> map chip_id (generalRanking js_sort (sectorCalculations js_sort negativeWeight))
        = [''n1'', ''n2'', ''n3'']
   \<and> map chip_id (rankedCompetitors js_sort negativeWeight) = [''n1'', ''n2'']
   \<and> map chip_id (sectorStandings js_sort negativeWeight ''A'') = [''n1'', ''n2'']
   \<and> length (filter (\<lambda>x. withoutGeneral x = standing ''n3'' ''A'' 3 1 (- 100) 0 (- 25 / 2) 3 0)
        (sectorStandings js_sort negativeWeight ''A'')) = 0"
proof -
  have "''A'' \<in> set sectors" by (simp add: sectors_def)
  moreover have "competitorDoc ''n3'' (Some ''A'') 3 \<in> set (firestoreCompetitors negativeWeight)"
    by (simp add: negativeWeight_def)
  moreover have "sectorCalculations js_sort negativeWeight ''A'' ! 2
        = standing ''n3'' ''A'' 3 1 (- 100) 0 (- 25 / 2) 3 0"
    unfolding negative_sector_A by simp
  moreover have "map chip_id (generalRanking js_sort (sectorCalculations js_sort negativeWeight))
        = [''n1'', ''n2'', ''n3'']"
    unfolding negative_general by simp
  moreover have "map chip_id (rankedCompetitors js_sort negativeWeight) = [''n1'', ''n2'']"
    unfolding negative_ranked by simp
  moreover have "map chip_id (sectorStandings js_sort negativeWeight ''A'') = [''n1'', ''n2'']"
    unfolding negative_standings by simp
  moreover have "length (filter (\<lambda>x. withoutGeneral x = standing ''n3'' ''A'' 3 1 (- 100) 0 (- 25 / 2) 3 0)
        (sectorStandings js_sort negativeWeight ''A'')) = 0"
    unfolding negative_standings by (simp add: standing_eq_iff)
  ultimately show ?thesis by simp
qed

end
